theory Spec2Isabelle
  imports Main "HOL-Library.Sublist" "HOL-Library.Word"
begin

section \<open>Data model of the compression middleware (src/src/main.ts, src/src/types.ts)\<close>

text \<open>
  \<^verbatim>\<open>export type CompressionEncoding = 'br' | 'deflate' | 'gzip'\<close>.
  At run time an encoding is its token string; \<open>token\<close> gives it.
\<close>

datatype CompressionEncoding = Br | Deflate | Gzip

fun token :: "CompressionEncoding \<Rightarrow> string" where
  "token Br = ''br''"
| "token Deflate = ''deflate''"
| "token Gzip = ''gzip''"

text \<open>
  Bodies are byte sequences (\<open>ArrayBuffer\<close>, \<open>Buffer\<close>, \<open>Uint8Array\<close>).
  The tuning objects handed to \<open>node:zlib\<close> are opaque property bags.
\<close>

type_synonym bytes = "8 word list"

datatype jsval = JNum int | JParams "(int \<times> int) list"

type_synonym jsobject = "string \<rightharpoonup> jsval"

datatype lifeCycle = before | after

text \<open>
  \<open>CompressionOptions & LifeCycleOptions & CacheOptions\<close> of types.ts: every property
  is optional, so every field is an \<open>option\<close> (\<open>None\<close> is \<open>undefined\<close>).
\<close>

record Options =
  opt_brotliOptions :: "jsobject option"
  opt_zlibOptions :: "jsobject option"
  opt_encodings :: "CompressionEncoding list option"
  opt_disableByHeader :: "bool option"
  opt_threshold :: "int option"
  opt_compressStream :: "bool option"
  opt_as :: "lifeCycle option"
  opt_TTL :: "int option"

text \<open>
  The constants that \<open>compression(options)\<close> computes once and that the returned
  middleware closes over (main.ts lines 39-61), under the names of the source.
\<close>

record Config =
  zlibOptions :: jsobject
  brotliOptions :: jsobject
  defaultEncodings :: "CompressionEncoding list"
  lifeCycleType :: lifeCycle
  threshold :: int
  cacheTTL :: int
  disableByHeader :: bool
  compressStream :: bool
  options :: "Options option"

text \<open>\<open>options?.f ?? d\<close>: optional chaining followed by nullish coalescing.\<close>

definition nullish :: "Options option \<Rightarrow> (Options \<Rightarrow> 'a option) \<Rightarrow> 'a \<Rightarrow> 'a" where
  "nullish opts f d = (case Option.bind opts f of None \<Rightarrow> d | Some v \<Rightarrow> v)"

text \<open>\<open>{ ...defaults, ...options?.f }\<close>: the properties of the second object win.\<close>

definition spread :: "jsobject \<Rightarrow> jsobject option \<Rightarrow> jsobject" where
  "spread d o2 = (case o2 of None \<Rightarrow> d | Some m \<Rightarrow> d ++ m)"

text \<open>The numeric constants of \<open>node:zlib\<close> used for the Brotli defaults.\<close>

definition BROTLI_PARAM_MODE :: int where "BROTLI_PARAM_MODE = 0"
definition BROTLI_MODE_GENERIC :: int where "BROTLI_MODE_GENERIC = 0"
definition BROTLI_PARAM_QUALITY :: int where "BROTLI_PARAM_QUALITY = 1"
definition BROTLI_DEFAULT_QUALITY :: int where "BROTLI_DEFAULT_QUALITY = 11"

definition compression :: "Options option \<Rightarrow> Config" where
  "compression opts =
     \<lparr> zlibOptions = spread [''level'' \<mapsto> JNum 6] (Option.bind opts opt_zlibOptions),
       brotliOptions =
         spread [''params'' \<mapsto> JParams [(BROTLI_PARAM_MODE, BROTLI_MODE_GENERIC),
                                         (BROTLI_PARAM_QUALITY, BROTLI_DEFAULT_QUALITY)]]
                (Option.bind opts opt_brotliOptions),
       defaultEncodings = nullish opts opt_encodings [Br, Gzip, Deflate],
       lifeCycleType = nullish opts opt_as after,
       threshold = nullish opts opt_threshold 1024,
       cacheTTL = nullish opts opt_TTL (24 * 60 * 60),
       disableByHeader = nullish opts opt_disableByHeader True,
       compressStream = nullish opts opt_compressStream True,
       options = opts \<rparr>"

section \<open>Strings of the host language\<close>

text \<open>
  \<open>String.prototype.split(sep)\<close> for a non-empty separator: the string is cut at every
  occurrence of \<open>sep\<close>, scanning from the left; a string without the separator is a
  single piece, and the empty string gives one empty piece. \<open>cur\<close> is the piece read so far.
\<close>

function split_from :: "string \<Rightarrow> string \<Rightarrow> string \<Rightarrow> string list" where
  "split_from sep cur [] = [cur]"
| "split_from sep cur (c # cs) =
     (if sep \<noteq> [] \<and> prefix sep (c # cs)
      then cur # split_from sep [] (drop (length sep) (c # cs))
      else split_from sep (cur @ [c]) cs)"
  by pat_completeness auto
termination
  by (relation "measure (\<lambda>(sep, cur, s). length s)") auto

definition split :: "string \<Rightarrow> string \<Rightarrow> string list" where
  "split sep s = split_from sep [] s"

text \<open>\<open>Array.prototype.join(sep)\<close>.\<close>

fun join :: "string \<Rightarrow> string list \<Rightarrow> string" where
  "join sep [] = []"
| "join sep [x] = x"
| "join sep (x # y # ys) = x @ sep @ join sep (y # ys)"

text \<open>
  Header values are byte strings (code points up to 255), which is what \<open>char\<close> is.
  \<open>toLowerCase\<close> on that range maps A-Z and the Latin-1 capitals 192-222 (without the
  multiplication sign 215) to the letter 32 places further; \<open>trim\<close> removes white space and
  line terminators from both ends, which in that range are the codes 9-13, 32 and 160.
\<close>

definition lower_char :: "char \<Rightarrow> char" where
  "lower_char c =
     (let n = of_char c :: nat
      in if (65 \<le> n \<and> n \<le> 90) \<or> (192 \<le> n \<and> n \<le> 222 \<and> n \<noteq> 215)
         then char_of (n + 32) else c)"

definition toLowerCase :: "string \<Rightarrow> string" where
  "toLowerCase s = map lower_char s"

definition is_space :: "char \<Rightarrow> bool" where
  "is_space c = (let n = of_char c :: nat in (9 \<le> n \<and> n \<le> 13) \<or> n = 32 \<or> n = 160)"

definition trim :: "string \<Rightarrow> string" where
  "trim s = rev (dropWhile is_space (rev (dropWhile is_space s)))"

section \<open>Requests, responses and headers\<close>

text \<open>
  Exceptions: one thrown by a collaborator, with its message, and the \<open>TypeError\<close> and
  \<open>RangeError\<close> that the \<open>Headers\<close> and \<open>Response\<close> objects of the Fetch API throw.
\<close>

datatype error = Thrown string | TypeError | RangeError

text \<open>
  A \<open>Headers\<close> object, keyed by the lower-cased header name: \<open>get\<close> and \<open>set\<close> ignore
  the case of the name; \<open>get\<close> of an absent header is \<open>null\<close> (\<open>None\<close>).
\<close>

type_synonym Headers = "string \<rightharpoonup> string"

definition headers_get :: "Headers \<Rightarrow> string \<Rightarrow> string option" where
  "headers_get h name = h (toLowerCase name)"

text \<open>
  \<open>Headers.set(name, value)\<close> first normalizes the value, removing the HTTP whitespace
  bytes (tab, line feed, carriage return, space) from both ends, and throws a
  \<open>TypeError\<close> when what is left is not a header value, that is when it holds a NUL, a
  line feed or a carriage return; otherwise it stores the normalized value. The names the
  middleware sets are the fixed, valid names \<open>Vary\<close> and \<open>Content-Encoding\<close>.
\<close>

definition http_whitespace :: "char \<Rightarrow> bool" where
  "http_whitespace c = (let n = of_char c :: nat in n = 9 \<or> n = 10 \<or> n = 13 \<or> n = 32)"

definition normalize_value :: "string \<Rightarrow> string" where
  "normalize_value v = rev (dropWhile http_whitespace (rev (dropWhile http_whitespace v)))"

definition forbidden_in_value :: "char \<Rightarrow> bool" where
  "forbidden_in_value c = (let n = of_char c :: nat in n = 0 \<or> n = 10 \<or> n = 13)"

definition headers_set :: "Headers \<Rightarrow> string \<Rightarrow> string \<Rightarrow> error + Headers" where
  "headers_set h name v =
     (if list_ex forbidden_in_value (normalize_value v) then Inl TypeError
      else Inr (h(toLowerCase name \<mapsto> normalize_value v)))"

text \<open>
  The body of a response. \<open>ReadableStream cs\<close> is a body for which
  \<open>response.body instanceof ReadableStream\<close> holds, producing the chunks \<open>cs\<close>;
  \<open>Buffer b\<close> is a body for which the test fails, holding the bytes \<open>b\<close> (the null body
  is \<open>Buffer []\<close>). \<open>arrayBuffer\<close> materializes either kind.
\<close>

datatype Body = Buffer bytes | ReadableStream "bytes list"

fun instanceof_ReadableStream :: "Body \<Rightarrow> bool" where
  "instanceof_ReadableStream (ReadableStream cs) = True"
| "instanceof_ReadableStream (Buffer b) = False"

fun arrayBuffer :: "Body \<Rightarrow> bytes" where
  "arrayBuffer (Buffer b) = b"
| "arrayBuffer (ReadableStream cs) = concat cs"

text \<open>
  The cast \<open>response.body as ReadableStream\<close>, giving the chunks of the stream; the
  middleware applies it only where the \<open>instanceof\<close> test has succeeded.
\<close>

fun as_ReadableStream :: "Body \<Rightarrow> bytes list" where
  "as_ReadableStream (ReadableStream cs) = cs"
| "as_ReadableStream (Buffer b) = [b]"

record Request =
  req_headers :: Headers

record Response =
  status :: nat
  statusText :: string
  headers :: Headers
  body :: Body

definition ok :: "Response \<Rightarrow> bool" where
  "ok r = (200 \<le> status r \<and> status r \<le> 299)"

text \<open>A string is truthy when it is neither \<open>null\<close> nor empty.\<close>

definition truthy :: "string option \<Rightarrow> bool" where
  "truthy v = (case v of None \<Rightarrow> False | Some s \<Rightarrow> s \<noteq> [])"

section \<open>Encoding negotiation (main.ts lines 114-124)\<close>

definition acceptEncodings :: "Request \<Rightarrow> string list" where
  "acceptEncodings req =
     (case headers_get (req_headers req) ''accept-encoding'' of
        None \<Rightarrow> []
      | Some v \<Rightarrow> split '', '' v)"

definition encodings :: "Config \<Rightarrow> Request \<Rightarrow> CompressionEncoding list" where
  "encodings cfg req =
     filter (\<lambda>encoding. token encoding \<in> set (acceptEncodings req)) (defaultEncodings cfg)"

section \<open>The compressible-type classifier (main.ts lines 55-56)\<close>

text \<open>
  The regular-expression fragment the classifier is written in: literal text, the anchors
  \<open>^\<close> and \<open>$\<close>, negative lookahead \<open>(?!r)\<close>, sequence and alternation.
  \<open>rmatch r s i\<close> lists, in backtracking order, the positions at which a match of \<open>r\<close>
  that starts at position \<open>i\<close> of \<open>s\<close> can end; \<open>regex_test\<close> is \<open>RegExp.prototype.test\<close>
  without the sticky and global flags: some start position has a match.
\<close>

datatype regex = Lit string | Bol | Eol | NegLook regex | Seq regex regex | Alt regex regex

fun rmatch :: "regex \<Rightarrow> string \<Rightarrow> nat \<Rightarrow> nat list" where
  "rmatch (Lit l) s i = (if take (length l) (drop i s) = l then [i + length l] else [])"
| "rmatch Bol s i = (if i = 0 then [i] else [])"
| "rmatch Eol s i = (if i = length s then [i] else [])"
| "rmatch (NegLook r) s i = (if rmatch r s i = [] then [i] else [])"
| "rmatch (Seq a b) s i = concat (map (rmatch b s) (rmatch a s i))"
| "rmatch (Alt a b) s i = rmatch a s i @ rmatch b s i"

definition regex_test :: "regex \<Rightarrow> string \<Rightarrow> bool" where
  "regex_test r s = list_ex (\<lambda>i. rmatch r s i \<noteq> []) [0..<Suc (length s)]"

text \<open>
  \<^verbatim>\<open>/^text\/(?!event-stream)|(?:\+|\/)json(?:;|$)|(?:\+|\/)text(?:;|$)|(?:\+|\/)xml(?:;|$)|octet-stream(?:;|$)/u\<close>
\<close>

definition plus_or_slash :: regex where
  "plus_or_slash = Alt (Lit ''+'') (Lit ''/'')"

definition semicolon_or_end :: regex where
  "semicolon_or_end = Alt (Lit '';'') Eol"

definition defaultCompressibleTypes :: regex where
  "defaultCompressibleTypes =
     Alt (Seq Bol (Seq (Lit ''text/'') (NegLook (Lit ''event-stream''))))
    (Alt (Seq plus_or_slash (Seq (Lit ''json'') semicolon_or_end))
    (Alt (Seq plus_or_slash (Seq (Lit ''text'') semicolon_or_end))
    (Alt (Seq plus_or_slash (Seq (Lit ''xml'') semicolon_or_end))
         (Seq (Lit ''octet-stream'') semicolon_or_end))))"

section \<open>The expiring cache\<close>

text \<open>
  Modelled from the spec: the module \<open>./cache\<close>, whose default export main.ts imports as
  \<open>cacheStore\<close>, is not among the sources. An entry holds the value, its creation
  timestamp and its TTL in seconds (spec, section 3, CacheEntry).
\<close>

record CacheEntry =
  entry_value :: bytes
  createdAt :: int
  entry_TTL :: int

type_synonym Cache = "string \<rightharpoonup> CacheEntry"

text \<open>
  Modelled from the spec: the module \<open>./cache\<close> is not among the sources. "An entry is
  visible to lookups only while now < createdAt + TTL" (section 3).
\<close>

definition visible :: "CacheEntry \<Rightarrow> int \<Rightarrow> bool" where
  "visible e now = (now < createdAt e + entry_TTL e)"

text \<open>
  Modelled from the spec: the module \<open>./cache\<close> is not among the sources. \<open>has(key)\<close>
  "must treat an expired entry as absent and remove it as a side effect of the check"
  (section 4.1); \<open>now\<close> is the clock reading, in seconds.
\<close>

definition cache_has :: "string \<Rightarrow> int \<Rightarrow> Cache \<Rightarrow> bool \<times> Cache" where
  "cache_has key now c =
     (case c key of
        None \<Rightarrow> (False, c)
      | Some e \<Rightarrow> if visible e now then (True, c) else (False, c(key := None)))"

text \<open>
  Modelled from the spec: the module \<open>./cache\<close> is not among the sources. \<open>get(key)\<close>
  returns the value or absent (\<open>undefined\<close>, here \<open>None\<close>), with the same lazy expiration
  as \<open>has\<close> (section 4.1).
\<close>

definition cache_get :: "string \<Rightarrow> int \<Rightarrow> Cache \<Rightarrow> bytes option \<times> Cache" where
  "cache_get key now c =
     (case c key of
        None \<Rightarrow> (None, c)
      | Some e \<Rightarrow> if visible e now then (Some (entry_value e), c) else (None, c(key := None)))"

text \<open>
  Modelled from the spec: the module \<open>./cache\<close> is not among the sources.
  \<open>set(key, value, ttlSeconds)\<close> "overwrites any existing entry for the same key and resets
  its TTL clock" (section 4.1).
\<close>

definition cache_set :: "string \<Rightarrow> bytes \<Rightarrow> int \<Rightarrow> int \<Rightarrow> Cache \<Rightarrow> Cache" where
  "cache_set key v ttl now c = c(key \<mapsto> \<lparr>entry_value = v, createdAt = now, entry_TTL = ttl\<rparr>)"

section \<open>The buffered compressor (main.ts lines 63-89)\<close>

text \<open>
  The collaborators outside the program, taken as parameters: \<open>TextDecoder.decode\<close> (the
  text is a list of code points), the hex digest of MD5 over a string, the three
  synchronous compressors of \<open>node:zlib\<close>, which may throw, and the stream wrapper of
  the module \<open>./compression-stream\<close>, which is not among the sources.
\<close>

record Platform =
  textDecoder_decode :: "bytes \<Rightarrow> nat list"
  md5_hex :: "nat list \<Rightarrow> string"
  brotliCompressSync :: "bytes \<Rightarrow> jsobject \<Rightarrow> error + bytes"
  gzipSync :: "bytes \<Rightarrow> jsobject \<Rightarrow> error + bytes"
  deflateSync :: "bytes \<Rightarrow> jsobject \<Rightarrow> error + bytes"
  CompressionStream :: "CompressionEncoding \<Rightarrow> Options option \<Rightarrow> bytes list \<Rightarrow> bytes list"

fun compressors :: "Platform \<Rightarrow> Config \<Rightarrow> CompressionEncoding \<Rightarrow> bytes \<Rightarrow> error + bytes" where
  "compressors P cfg Br buffer = brotliCompressSync P buffer (brotliOptions cfg)"
| "compressors P cfg Gzip buffer = gzipSync P buffer (zlibOptions cfg)"
| "compressors P cfg Deflate buffer = deflateSync P buffer (zlibOptions cfg)"

text \<open>
  The state shared by all requests: the module-level cache store, and a log of the calls
  made to the underlying compressors (the call-count instrumentation of the spec).
\<close>

record State =
  cacheStore :: Cache
  compressorCalls :: "(CompressionEncoding \<times> bytes) list"

text \<open>The template string \<^verbatim>\<open>`${algorithm}:${textDecoder.decode(buffer)}`\<close> and its digest.\<close>

definition cacheKey :: "Platform \<Rightarrow> CompressionEncoding \<Rightarrow> bytes \<Rightarrow> string" where
  "cacheKey P algorithm buffer =
     md5_hex P (map of_char (token algorithm) @ [of_char CHR '':''] @ textDecoder_decode P buffer)"

text \<open>
  \<open>getOrCompress\<close> at clock reading \<open>now\<close>: the call is synchronous, and its two
  lookups \<open>has\<close> and \<open>get\<close> read the same clock value. The result of a hit is what
  \<open>cacheStore.get\<close> returns (\<open>None\<close> for \<open>undefined\<close>); a compressor that throws ends
  the call with \<open>Inl\<close>, after the call has been logged and before anything is stored.
\<close>

definition getOrCompress ::
  "Platform \<Rightarrow> Config \<Rightarrow> CompressionEncoding \<Rightarrow> bytes \<Rightarrow> int \<Rightarrow> State
     \<Rightarrow> (error + bytes option) \<times> State" where
  "getOrCompress P cfg algorithm buffer now s =
     (let key = cacheKey P algorithm buffer;
          (present, c1) = cache_has key now (cacheStore s)
      in if present
         then (let (v, c2) = cache_get key now c1 in (Inr v, s\<lparr>cacheStore := c2\<rparr>))
         else (let s1 = s\<lparr>cacheStore := c1,
                          compressorCalls := compressorCalls s @ [(algorithm, buffer)]\<rparr>
               in case compressors P cfg algorithm buffer of
                    Inl e \<Rightarrow> (Inl e, s1)
                  | Inr compressedOutput \<Rightarrow>
                      (Inr (Some compressedOutput),
                       s1\<lparr>cacheStore := cache_set key compressedOutput (cacheTTL cfg) now c1\<rparr>)))"

section \<open>The response rewriter (main.ts lines 166-204)\<close>

text \<open>\<open>Array.prototype.indexOf\<close>: the first index of the value, or -1.\<close>

fun indexOf :: "'a list \<Rightarrow> 'a \<Rightarrow> int" where
  "indexOf [] v = - 1"
| "indexOf (x # xs) v =
     (if x = v then 0 else (let i = indexOf xs v in if i < 0 then - 1 else i + 1))"

text \<open>\<^verbatim>\<open>.filter((value, index, array) => array.indexOf(value) === index)\<close>\<close>

definition filter_first_index :: "'a list \<Rightarrow> 'a list" where
  "filter_first_index array =
     map fst (filter (\<lambda>(v, index). indexOf array v = int index)
                     (zip array [0..<length array]))"

text \<open>\<^verbatim>\<open>vary?.split(',').map((v: string) => v.trim().toLowerCase())\<close>\<close>

definition headerValueArray :: "string \<Rightarrow> string list" where
  "headerValueArray vary = map (\<lambda>v. toLowerCase (trim v)) (split '','' vary)"

definition mergeVary :: "Headers \<Rightarrow> error + Headers" where
  "mergeVary hs =
     (case headers_get hs ''Vary'' of
        None \<Rightarrow> headers_set hs ''Vary'' ''accept-encoding''
      | Some vary \<Rightarrow>
          if vary = [] then headers_set hs ''Vary'' ''accept-encoding''
          else if ''*'' \<notin> set (headerValueArray vary)
               then headers_set hs ''Vary''
                      (join '', '' (filter_first_index (headerValueArray vary @ [''accept-encoding''])))
               else Inr hs)"

text \<open>\<open>new Uint8Array(compressed)\<close>; of \<open>undefined\<close> it is the empty array.\<close>

definition new_Uint8Array :: "bytes option \<Rightarrow> bytes" where
  "new_Uint8Array compressed = (case compressed of None \<Rightarrow> [] | Some b \<Rightarrow> b)"

text \<open>
  \<open>new Response(body, { status, statusText, headers })\<close> with a body that is not null, as
  the \<open>Uint8Array\<close> or the stream of the middleware always is: a status outside 200-599
  is a \<open>RangeError\<close>; a status text that is not a reason phrase (tab, space, the visible
  ASCII characters and the bytes from 128 on) is a \<open>TypeError\<close>; and a null body status
  (101, 103, 204, 205, 304) is a \<open>TypeError\<close>, since such a response cannot carry a
  body.
\<close>

definition reason_phrase_char :: "char \<Rightarrow> bool" where
  "reason_phrase_char c =
     (let n = of_char c :: nat in n = 9 \<or> (32 \<le> n \<and> n \<le> 126) \<or> 128 \<le> n)"

definition null_body_status :: "nat \<Rightarrow> bool" where
  "null_body_status st = (st = 101 \<or> st = 103 \<or> st = 204 \<or> st = 205 \<or> st = 304)"

definition new_Response :: "Body \<Rightarrow> nat \<Rightarrow> string \<Rightarrow> Headers \<Rightarrow> error + Response" where
  "new_Response b st txt hs =
     (if st < 200 \<or> 599 < st then Inl RangeError
      else if \<not> list_all reason_phrase_char txt then Inl TypeError
      else if null_body_status st then Inl TypeError
      else Inr \<lparr> status = st, statusText = txt, headers = hs, body = b \<rparr>)"

text \<open>
  Lines 166-204: the copied headers with \<open>Vary\<close> merged and \<open>Content-Encoding\<close> set, then
  the new response; the first exception ends the rewriting.
\<close>

definition rewrite :: "Response \<Rightarrow> CompressionEncoding \<Rightarrow> Body \<Rightarrow> error + Response" where
  "rewrite response encoding b =
     (case mergeVary (headers response) of
        Inl e \<Rightarrow> Inl e
      | Inr merged \<Rightarrow>
          (case headers_set merged ''Content-Encoding'' (token encoding) of
             Inl e \<Rightarrow> Inl e
           | Inr hs \<Rightarrow> new_Response b (status response) (statusText response) hs))"

section \<open>The middleware (main.ts lines 98-205)\<close>

text \<open>
  \<open>next\<close> is the outcome of the continuation \<open>next()\<close>: the downstream response, or the
  exception it threw. The middleware returns its own outcome and the new shared state; an
  exception of the rewriting comes after the buffered compressor has run, so the state is
  the one that call left.
\<close>

definition middleware ::
  "Platform \<Rightarrow> Config \<Rightarrow> Request \<Rightarrow> error + Response \<Rightarrow> int \<Rightarrow> State
     \<Rightarrow> (error + Response) \<times> State" where
  "middleware P cfg req next now s =
     (if disableByHeader cfg \<and> truthy (headers_get (req_headers req) ''x-no-compression'')
      then (next, s)
      else case next of
        Inl e \<Rightarrow> (Inl e, s)
      | Inr response \<Rightarrow>
          if \<not> ok response then (Inr response, s)
          else (case encodings cfg req of
            [] \<Rightarrow> (Inr response, s)
          | encoding # _ \<Rightarrow>
             (let contentType = (case headers_get (headers response) ''Content-Type'' of
                                   None \<Rightarrow> [] | Some v \<Rightarrow> v)
              in if compressStream cfg \<and> instanceof_ReadableStream (body response)
                 then (let stream = as_ReadableStream (body response)
                       in (rewrite response encoding
                             (ReadableStream (CompressionStream P encoding (options cfg) stream)),
                           s))
                 else (let buffer = arrayBuffer (body response)
                       in if int (length buffer) < threshold cfg then (Inr response, s)
                          else if \<not> (contentType = [] \<or> regex_test defaultCompressibleTypes contentType)
                          then (Inr response, s)
                          else (case getOrCompress P cfg encoding buffer now s of
                                  (Inl e, s') \<Rightarrow> (Inl e, s')
                                | (Inr compressed, s') \<Rightarrow>
                                    (rewrite response encoding
                                       (Buffer (new_Uint8Array compressed)), s'))))))"

section \<open>A concrete platform for the examples\<close>

text \<open>
  The UTF-8 decoder that \<open>new TextDecoder()\<close> runs (Encoding Standard): a malformed
  sequence gives U+FFFD, a byte that cannot continue a sequence is read again as the start
  of the next one, an unfinished sequence at the end gives U+FFFD, and a leading byte
  order mark is dropped. The decoder state is the code point collected so far, the
  continuation bytes seen and needed, and the bounds for the next continuation byte.
\<close>

type_synonym utf8_state = "nat \<times> nat \<times> nat \<times> nat \<times> nat"

definition utf8_init :: utf8_state where
  "utf8_init = (0, 0, 0, 0x80, 0xBF)"

definition utf8_lead :: "nat \<Rightarrow> nat list \<times> utf8_state" where
  "utf8_lead b =
     (if b \<le> 0x7F then ([b], utf8_init)
      else if 0xC2 \<le> b \<and> b \<le> 0xDF then ([], (b mod 32, 0, 1, 0x80, 0xBF))
      else if 0xE0 \<le> b \<and> b \<le> 0xEF
        then ([], (b mod 16, 0, 2, if b = 0xE0 then 0xA0 else 0x80, if b = 0xED then 0x9F else 0xBF))
      else if 0xF0 \<le> b \<and> b \<le> 0xF4
        then ([], (b mod 8, 0, 3, if b = 0xF0 then 0x90 else 0x80, if b = 0xF4 then 0x8F else 0xBF))
      else ([0xFFFD], utf8_init))"

fun utf8_step :: "utf8_state \<Rightarrow> nat \<Rightarrow> nat list \<times> utf8_state" where
  "utf8_step (cp, seen, needed, lo, hi) b =
     (if needed = 0 then utf8_lead b
      else if b < lo \<or> hi < b then (0xFFFD # fst (utf8_lead b), snd (utf8_lead b))
      else if seen + 1 \<noteq> needed then ([], (cp * 64 + b mod 64, seen + 1, needed, 0x80, 0xBF))
      else ([cp * 64 + b mod 64], utf8_init))"

fun utf8_run :: "utf8_state \<Rightarrow> nat list \<Rightarrow> nat list" where
  "utf8_run (cp, seen, needed, lo, hi) [] = (if needed \<noteq> 0 then [0xFFFD] else [])"
| "utf8_run st (b # bs) = (let (out, st') = utf8_step st b in out @ utf8_run st' bs)"

definition utf8_decode :: "bytes \<Rightarrow> nat list" where
  "utf8_decode buffer =
     (let out = utf8_run utf8_init (map unat buffer)
      in if out \<noteq> [] \<and> hd out = 0xFEFF then tl out else out)"

text \<open>
  Stand-ins for the digest and the compressors, used only to run the examples: the digest
  writes the code points down as characters; a compressor stores the body behind a byte
  naming the algorithm and, for gzip and deflate, a byte holding the configured level;
  the stream wrapper puts the algorithm byte before every chunk.
\<close>

fun tag :: "CompressionEncoding \<Rightarrow> 8 word" where
  "tag Br = 1"
| "tag Gzip = 2"
| "tag Deflate = 3"

definition level_byte :: "jsobject \<Rightarrow> 8 word" where
  "level_byte opts = (case opts ''level'' of Some (JNum n) \<Rightarrow> word_of_int n | _ \<Rightarrow> 0)"

definition example_platform :: Platform where
  "example_platform =
     \<lparr> textDecoder_decode = utf8_decode,
       md5_hex = map char_of,
       brotliCompressSync = (\<lambda>buffer opts. Inr (tag Br # buffer)),
       gzipSync = (\<lambda>buffer opts. Inr (tag Gzip # level_byte opts # buffer)),
       deflateSync = (\<lambda>buffer opts. Inr (tag Deflate # level_byte opts # buffer)),
       CompressionStream = (\<lambda>encoding opts. map (\<lambda>chunk. tag encoding # chunk)) \<rparr>"

text \<open>The same platform with compressors that throw.\<close>

definition failing_platform :: Platform where
  "failing_platform =
     example_platform
       \<lparr> brotliCompressSync := (\<lambda>buffer opts. Inl (Thrown ''brotli'')),
         gzipSync := (\<lambda>buffer opts. Inl (Thrown ''zlib'')),
         deflateSync := (\<lambda>buffer opts. Inl (Thrown ''zlib'')) \<rparr>"

definition empty_state :: State where
  "empty_state = \<lparr> cacheStore = Map.empty, compressorCalls = [] \<rparr>"

text \<open>
  The options of the repository's tests, \<open>{ threshold, compressStream: false }\<close>, with
  the other properties left out; a request that accepts gzip; and the value of a header
  in the outcome of the middleware.
\<close>

definition buffered_options :: "int option \<Rightarrow> Options" where
  "buffered_options t =
     \<lparr> opt_brotliOptions = None, opt_zlibOptions = None, opt_encodings = None,
       opt_disableByHeader = None, opt_threshold = t, opt_compressStream = Some False,
       opt_as = None, opt_TTL = None \<rparr>"

text \<open>The options \<open>{ compressStream: true }\<close>, with the default threshold of 1024.\<close>

definition stream_options :: Options where
  "stream_options =
     \<lparr> opt_brotliOptions = None, opt_zlibOptions = None, opt_encodings = None,
       opt_disableByHeader = None, opt_threshold = None, opt_compressStream = Some True,
       opt_as = None, opt_TTL = None \<rparr>"

text \<open>A request with the given \<open>Accept-Encoding\<close> header and no other.\<close>

definition request_accepting :: "string \<Rightarrow> Request" where
  "request_accepting v = \<lparr> req_headers = [''accept-encoding'' \<mapsto> v] \<rparr>"

definition gzip_request :: Request where
  "gzip_request = \<lparr> req_headers = [''accept-encoding'' \<mapsto> ''gzip''] \<rparr>"

definition response_header :: "string \<Rightarrow> error + Response \<Rightarrow> error + string option" where
  "response_header name outcome = map_sum id (\<lambda>r. headers_get (headers r) name) outcome"

text \<open>Responses for the examples: status 200, the given headers and body.\<close>

definition response200 :: "Headers \<Rightarrow> Body \<Rightarrow> Response" where
  "response200 hs b = \<lparr> status = 200, statusText = ''OK'', headers = hs, body = b \<rparr>"

definition hello :: bytes where
  "hello = [104, 101, 108, 108, 111]"

text \<open>
  The state after an instance with the default zlib level and TTL has compressed
  \<open>hello\<close> with gzip at time 0 on the example platform, and the options of a second
  instance with another level and a TTL of one second.
\<close>

definition hello_cached :: State where
  "hello_cached =
     \<lparr> cacheStore = [cacheKey example_platform Gzip hello
                       \<mapsto> \<lparr>entry_value = 2 # 6 # hello, createdAt = 0, entry_TTL = 86400\<rparr>],
       compressorCalls = [(Gzip, hello)] \<rparr>"

definition other_options :: Options where
  "other_options =
     \<lparr> opt_brotliOptions = None, opt_zlibOptions = Some [''level'' \<mapsto> JNum 9],
       opt_encodings = Some [Gzip], opt_disableByHeader = None, opt_threshold = Some 0,
       opt_compressStream = Some False, opt_as = None, opt_TTL = Some 1 \<rparr>"

section \<open>Facts about the classifier\<close>

lemma rmatch_Lit: "rmatch (Lit l) s i = (if prefix l (drop i s) then [i + length l] else [])"
proof -
  have "take (length l) (drop i s) = l \<longleftrightarrow> prefix l (drop i s)"
    by (metis append_eq_conv_conj prefix_def take_is_prefix)
  then show ?thesis by simp
qed

lemma rmatch_Seq_Lit:
  "rmatch (Seq (Lit l) r) s i = (if prefix l (drop i s) then rmatch r s (i + length l) else [])"
  by (simp add: rmatch_Lit del: rmatch.simps(1))

lemma rmatch_semicolon_or_end:
  "rmatch semicolon_or_end s i \<noteq> [] \<longleftrightarrow> prefix '';'' (drop i s) \<or> i = length s"
  by (simp add: semicolon_or_end_def rmatch_Lit del: rmatch.simps(1))

lemma prefix_append_drop:
  "prefix (a @ b) xs \<longleftrightarrow> prefix a xs \<and> prefix b (drop (length a) xs)"
  by (auto simp: prefix_def)

lemma ex_prefix_drop: "(\<exists>i\<le>length s. prefix x (drop i s)) \<longleftrightarrow> sublist x s"
proof
  assume "\<exists>i\<le>length s. prefix x (drop i s)"
  then obtain i post where "drop i s = x @ post" by (auto simp: prefix_def)
  then have "s = take i s @ x @ post" by (metis append_take_drop_id)
  then show "sublist x s" unfolding sublist_def by blast
next
  assume "sublist x s"
  then obtain ps ss where s: "s = ps @ x @ ss" unfolding sublist_def by blast
  then have "length ps \<le> length s \<and> prefix x (drop (length ps) s)" by simp
  then show "\<exists>i\<le>length s. prefix x (drop i s)" by blast
qed

lemma ex_drop_eq: "(\<exists>i\<le>length s. drop i s = x) \<longleftrightarrow> suffix x s"
proof
  assume "\<exists>i\<le>length s. drop i s = x"
  then show "suffix x s" by (metis suffix_drop)
next
  assume "suffix x s"
  then obtain zs where "s = zs @ x" unfolding suffix_def by blast
  then have "length zs \<le> length s \<and> drop (length zs) s = x" by simp
  then show "\<exists>i\<le>length s. drop i s = x" by blast
qed

lemma prefix_to_end:
  assumes "i \<le> length s"
  shows "prefix t (drop i s) \<and> i + length t = length s \<longleftrightarrow> drop i s = t"
proof
  assume h: "prefix t (drop i s) \<and> i + length t = length s"
  then obtain zs where z: "drop i s = t @ zs" by (auto simp: prefix_def)
  have "length t + length zs = length s - i"
    using arg_cong [OF z, of length] by simp
  with h have "length zs = 0" by linarith
  with z show "drop i s = t" by simp
next
  assume h: "drop i s = t"
  have "length (drop i s) = length s - i" by simp
  with h assms have "i + length t = length s" by simp
  with h show "prefix t (drop i s) \<and> i + length t = length s" by simp
qed

lemma rmatch_token:
  assumes "i \<le> length s"
  shows "rmatch (Seq (Lit t) semicolon_or_end) s i \<noteq> [] \<longleftrightarrow>
         prefix (t @ '';'') (drop i s) \<or> drop i s = t"
proof -
  have "rmatch (Seq (Lit t) semicolon_or_end) s i \<noteq> [] \<longleftrightarrow>
        prefix t (drop i s) \<and> (prefix '';'' (drop (i + length t) s) \<or> i + length t = length s)"
    by (simp add: rmatch_Seq_Lit rmatch_semicolon_or_end del: rmatch.simps)
  also have "\<dots> \<longleftrightarrow> prefix (t @ '';'') (drop i s) \<or> drop i s = t"
    using prefix_to_end [OF assms, of t] prefix_append_drop [of t "'';''" "drop i s"]
    by (auto simp: add.commute)
  finally show ?thesis .
qed

lemma regex_test_iff: "regex_test r s \<longleftrightarrow> (\<exists>i\<le>length s. rmatch r s i \<noteq> [])"
  unfolding regex_test_def list_ex_iff
  by (simp add: Bex_def less_Suc_eq_le del: upt_Suc)

lemma regex_test_Alt: "regex_test (Alt a b) s \<longleftrightarrow> regex_test a s \<or> regex_test b s"
  unfolding regex_test_iff by auto

lemma regex_test_Seq_Alt:
  "regex_test (Seq (Alt x y) z) s \<longleftrightarrow> regex_test (Seq x z) s \<or> regex_test (Seq y z) s"
  unfolding regex_test_iff by auto

lemma regex_test_token:
  "regex_test (Seq (Lit t) semicolon_or_end) s \<longleftrightarrow> suffix t s \<or> sublist (t @ '';'') s"
proof -
  have "regex_test (Seq (Lit t) semicolon_or_end) s \<longleftrightarrow>
        (\<exists>i\<le>length s. prefix (t @ '';'') (drop i s) \<or> drop i s = t)"
  proof
    assume "regex_test (Seq (Lit t) semicolon_or_end) s"
    then obtain i where i: "i \<le> length s" "rmatch (Seq (Lit t) semicolon_or_end) s i \<noteq> []"
      unfolding regex_test_iff by blast
    then have "prefix (t @ '';'') (drop i s) \<or> drop i s = t"
      using rmatch_token [of i s t] by blast
    with i show "\<exists>i\<le>length s. prefix (t @ '';'') (drop i s) \<or> drop i s = t" by blast
  next
    assume "\<exists>i\<le>length s. prefix (t @ '';'') (drop i s) \<or> drop i s = t"
    then obtain i where i: "i \<le> length s" "prefix (t @ '';'') (drop i s) \<or> drop i s = t"
      by blast
    then have "rmatch (Seq (Lit t) semicolon_or_end) s i \<noteq> []"
      using rmatch_token [of i s t] by blast
    with i show "regex_test (Seq (Lit t) semicolon_or_end) s"
      unfolding regex_test_iff by blast
  qed
  also have "\<dots> \<longleftrightarrow> suffix t s \<or> sublist (t @ '';'') s"
    using ex_prefix_drop [of s "t @ '';''"] ex_drop_eq [of s t] by blast
  finally show ?thesis .
qed

lemma rmatch_Seq_Lit_Lit:
  "rmatch (Seq (Lit a) (Seq (Lit w) r)) s i = rmatch (Seq (Lit (a @ w)) r) s i"
  by (simp add: rmatch_Seq_Lit prefix_append_drop ac_simps del: rmatch.simps)

lemma regex_test_token2:
  "regex_test (Seq (Lit a) (Seq (Lit w) semicolon_or_end)) s \<longleftrightarrow>
   suffix (a @ w) s \<or> sublist (a @ w @ '';'') s"
  using regex_test_token [of "a @ w" s]
  by (simp add: regex_test_iff rmatch_Seq_Lit_Lit del: rmatch.simps)

lemma rmatch_Seq_Bol: "rmatch (Seq Bol r) s i = (if i = 0 then rmatch r s 0 else [])"
  by simp

lemma rmatch_NegLook_Lit: "rmatch (NegLook (Lit l)) s i \<noteq> [] \<longleftrightarrow> \<not> prefix l (drop i s)"
  by (simp add: rmatch_Lit del: rmatch.simps(1))

lemma regex_test_text:
  "regex_test (Seq Bol (Seq (Lit ''text/'') (NegLook (Lit ''event-stream'')))) s \<longleftrightarrow>
   prefix ''text/'' s \<and> \<not> prefix ''text/event-stream'' s"
proof -
  have p: "prefix ''text/event-stream'' s \<longleftrightarrow>
        prefix ''text/'' s \<and> prefix ''event-stream'' (drop (length ''text/'') s)"
    using prefix_append_drop [of "''text/''" "''event-stream''" s] by simp
  have m: "rmatch (Seq Bol (Seq (Lit ''text/'') (NegLook (Lit ''event-stream'')))) s i \<noteq> [] \<longleftrightarrow>
        i = 0 \<and> prefix ''text/'' s \<and> \<not> prefix ''event-stream'' (drop (length ''text/'') s)" for i
    by (simp add: rmatch_Seq_Bol rmatch_Seq_Lit rmatch_NegLook_Lit del: rmatch.simps)
  show ?thesis unfolding regex_test_iff m p by auto
qed

lemma classifier_iff:
  "regex_test defaultCompressibleTypes ct \<longleftrightarrow>
     (prefix ''text/'' ct \<and> \<not> prefix ''text/event-stream'' ct) \<or>
     (\<exists>t \<in> set [''+json'', ''/json'', ''+text'', ''/text'', ''+xml'', ''/xml'', ''octet-stream''].
        suffix t ct \<or> sublist (t @ '';'') ct)"
  unfolding defaultCompressibleTypes_def plus_or_slash_def regex_test_Alt regex_test_Seq_Alt
    regex_test_token2 regex_test_token regex_test_text
  by simp

section \<open>Facts about the de-duplicating filter\<close>

lemma indexOf_mem: "0 \<le> indexOf xs v \<longleftrightarrow> v \<in> set xs"
  by (induction xs) (auto simp: Let_def)

lemma indexOf_less: "indexOf xs v < int (length xs)"
  by (induction xs) (auto simp: Let_def)

lemma indexOf_append_mem: "v \<in> set xs \<Longrightarrow> indexOf (xs @ ys) v = indexOf xs v"
  by (induction xs) (auto simp: Let_def)

lemma indexOf_snoc_new: "v \<notin> set xs \<Longrightarrow> indexOf (xs @ [v]) v = int (length xs)"
  by (induction xs) (auto simp: Let_def)

lemma filter_first_index_snoc:
  "filter_first_index (xs @ [x]) = filter_first_index xs @ (if x \<in> set xs then [] else [x])"
proof -
  have z: "zip (xs @ [x]) [0..<length (xs @ [x])] = zip xs [0..<length xs] @ [(x, length xs)]"
    by simp
  have old: "filter (\<lambda>(v, index). indexOf (xs @ [x]) v = int index) (zip xs [0..<length xs])
           = filter (\<lambda>(v, index). indexOf xs v = int index) (zip xs [0..<length xs])"
    by (rule filter_cong) (auto simp: indexOf_append_mem dest: set_zip_leftD)
  have new: "indexOf (xs @ [x]) x = int (length xs) \<longleftrightarrow> x \<notin> set xs"
  proof (cases "x \<in> set xs")
    case True
    then have "indexOf (xs @ [x]) x = indexOf xs x" by (rule indexOf_append_mem)
    with True show ?thesis using indexOf_less [of xs x] by simp
  next
    case False
    then show ?thesis by (simp add: indexOf_snoc_new)
  qed
  show ?thesis
    unfolding filter_first_index_def z filter_append map_append old
    using new by simp
qed

lemma filter_first_index_remdups: "filter_first_index xs = rev (remdups (rev xs))"
proof (induction xs rule: rev_induct)
  case Nil
  show ?case by (simp add: filter_first_index_def)
next
  case (snoc x xs)
  then show ?case by (simp add: filter_first_index_snoc)
qed

section \<open>Facts about the cache, the buffered compressor and the gates\<close>

lemma cache_has_fst:
  "fst (cache_has key now c) \<longleftrightarrow> (\<exists>e. c key = Some e \<and> visible e now)"
  by (auto simp: cache_has_def split: option.splits)

lemma cache_has_True: "fst (cache_has key now c) \<Longrightarrow> snd (cache_has key now c) = c"
  by (auto simp: cache_has_def split: option.splits)

lemma cache_has_False_key: "\<not> fst (cache_has key now c) \<Longrightarrow> snd (cache_has key now c) key = None"
  by (auto simp: cache_has_def split: option.splits)

lemma cache_get_visible:
  "c key = Some e \<Longrightarrow> visible e now \<Longrightarrow> cache_get key now c = (Some (entry_value e), c)"
  by (simp add: cache_get_def)

lemma getOrCompress_hit:
  assumes "cacheStore s (cacheKey P algorithm buffer) = Some e" and "visible e now"
  shows "getOrCompress P cfg algorithm buffer now s = (Inr (Some (entry_value e)), s)"
  using assms by (simp add: getOrCompress_def cache_has_def cache_get_def)

lemma getOrCompress_miss:
  assumes "\<not> fst (cache_has (cacheKey P algorithm buffer) now (cacheStore s))"
  shows "getOrCompress P cfg algorithm buffer now s =
     (let key = cacheKey P algorithm buffer;
          c1 = snd (cache_has key now (cacheStore s));
          s1 = s\<lparr>cacheStore := c1, compressorCalls := compressorCalls s @ [(algorithm, buffer)]\<rparr>
      in case compressors P cfg algorithm buffer of
           Inl e \<Rightarrow> (Inl e, s1)
         | Inr out \<Rightarrow> (Inr (Some out),
                        s1\<lparr>cacheStore := cache_set key out (cacheTTL cfg) now c1\<rparr>))"
proof -
  obtain present c1 where h: "cache_has (cacheKey P algorithm buffer) now (cacheStore s) = (present, c1)"
    by (cases "cache_has (cacheKey P algorithm buffer) now (cacheStore s)")
  with assms have "\<not> present" by simp
  with h show ?thesis
    by (cases "compressors P cfg algorithm buffer") (simp_all add: getOrCompress_def Let_def)
qed

lemma getOrCompress_Some_entry:
  assumes "getOrCompress P cfg algorithm buffer now s = (Inr (Some out), s1)"
  shows "\<exists>e. cacheStore s1 (cacheKey P algorithm buffer) = Some e \<and> entry_value e = out"
proof (cases "fst (cache_has (cacheKey P algorithm buffer) now (cacheStore s))")
  case True
  then obtain e where e: "cacheStore s (cacheKey P algorithm buffer) = Some e" "visible e now"
    unfolding cache_has_fst by blast
  with assms show ?thesis by (auto simp: getOrCompress_hit)
next
  case False
  with assms show ?thesis
    by (auto simp: getOrCompress_miss Let_def cache_set_def split: sum.splits)
qed

lemma getOrCompress_again:
  assumes first: "getOrCompress P cfg algorithm buffer t1 s = (Inr (Some out), s1)"
      and key: "cacheKey P algorithm' buffer' = cacheKey P algorithm buffer"
      and window: "fst (cache_has (cacheKey P algorithm buffer) t2 (cacheStore s1))"
  shows "getOrCompress P cfg' algorithm' buffer' t2 s1 = (Inr (Some out), s1)"
proof -
  from getOrCompress_Some_entry [OF first] obtain e
    where e: "cacheStore s1 (cacheKey P algorithm buffer) = Some e" "entry_value e = out"
    by blast
  with window have "visible e t2" unfolding cache_has_fst by simp
  with e key show ?thesis using getOrCompress_hit [of s1 P algorithm' buffer' e t2 cfg'] by simp
qed

section \<open>Facts about the gates, the headers and the rewriter\<close>

lemma middleware_buffered:
  assumes "\<not> (disableByHeader cfg \<and> truthy (headers_get (req_headers req) ''x-no-compression''))"
      and "ok response"
      and "encodings cfg req = encoding # rest"
      and "\<not> (compressStream cfg \<and> instanceof_ReadableStream (body response))"
      and "\<not> int (length (arrayBuffer (body response))) < threshold cfg"
      and "headers_get (headers response) ''Content-Type'' = None
           \<or> headers_get (headers response) ''Content-Type'' = Some []
           \<or> (\<exists>ct. headers_get (headers response) ''Content-Type'' = Some ct
                  \<and> regex_test defaultCompressibleTypes ct)"
  shows "middleware P cfg req (Inr response) now s =
     (case getOrCompress P cfg encoding (arrayBuffer (body response)) now s of
        (Inl e, s') \<Rightarrow> (Inl e, s')
      | (Inr compressed, s') \<Rightarrow>
          (rewrite response encoding (Buffer (new_Uint8Array compressed)), s'))"
  using assms by (auto simp: middleware_def Let_def split: option.splits)

lemma middleware_stream:
  assumes "\<not> (disableByHeader cfg \<and> truthy (headers_get (req_headers req) ''x-no-compression''))"
      and "ok response"
      and "encodings cfg req = encoding # rest"
      and "compressStream cfg"
      and "body response = ReadableStream stream"
  shows "middleware P cfg req (Inr response) now s =
     (rewrite response encoding
        (ReadableStream (CompressionStream P encoding (options cfg) stream)), s)"
  using assms by (auto simp: middleware_def Let_def)

lemma middleware_rewritten:
  assumes "middleware P cfg req (Inr response) now s = (Inr r, s')" and "r \<noteq> response"
  shows "\<exists>encoding rest b. encodings cfg req = encoding # rest
           \<and> rewrite response encoding b = Inr r"
  using assms
  by (auto simp: middleware_def Let_def split: if_splits list.splits sum.splits prod.splits)

lemma middleware_small_buffered:
  assumes "\<not> (compressStream cfg \<and> instanceof_ReadableStream (body response))"
      and "int (length (arrayBuffer (body response))) < threshold cfg"
  shows "middleware P cfg req (Inr response) now s = (Inr response, s)"
  using assms by (auto simp: middleware_def Let_def split: list.splits)

lemma middleware_not_compressible:
  assumes "\<not> (compressStream cfg \<and> instanceof_ReadableStream (body response))"
      and "headers_get (headers response) ''Content-Type'' = Some ct"
      and "ct \<noteq> []" and "\<not> regex_test defaultCompressibleTypes ct"
  shows "middleware P cfg req (Inr response) now s = (Inr response, s)"
  using assms by (auto simp: middleware_def Let_def split: list.splits)

lemma middleware_no_encoding:
  assumes "encodings cfg req = []"
  shows "middleware P cfg req (Inr response) now s = (Inr response, s)"
  using assms by (auto simp: middleware_def Let_def)

lemma lower_names [simp]:
  "toLowerCase ''accept-encoding'' = ''accept-encoding''"
  "toLowerCase ''x-no-compression'' = ''x-no-compression''"
  "toLowerCase ''Content-Type'' = ''content-type''"
  "toLowerCase ''Content-Encoding'' = ''content-encoding''"
  "toLowerCase ''Vary'' = ''vary''"
  by code_simp+

lemma headers_set_token:
  "headers_set h ''Content-Encoding'' (token encoding) = Inr (h(''content-encoding'' \<mapsto> token encoding))"
proof -
  have n: "normalize_value ''br'' = ''br''" "normalize_value ''gzip'' = ''gzip''"
    "normalize_value ''deflate'' = ''deflate''"
    by code_simp+
  have f: "\<not> list_ex forbidden_in_value ''br''" "\<not> list_ex forbidden_in_value ''gzip''"
    "\<not> list_ex forbidden_in_value ''deflate''"
    by code_simp+
  show ?thesis by (cases encoding) (simp_all only: token.simps headers_set_def n f lower_names if_False)
qed

lemma headers_set_accept_encoding:
  "headers_set h ''Vary'' ''accept-encoding'' = Inr (h(''vary'' \<mapsto> ''accept-encoding''))"
proof -
  have "normalize_value ''accept-encoding'' = ''accept-encoding''" by code_simp
  moreover have "\<not> list_ex forbidden_in_value ''accept-encoding''" by code_simp
  ultimately show ?thesis by (simp add: headers_set_def)
qed

lemma headers_set_Inr:
  "headers_set h name v = Inr h' \<Longrightarrow> h' = h(toLowerCase name \<mapsto> normalize_value v)"
  by (auto simp: headers_set_def split: if_splits)

lemma mergeVary_Vary:
  assumes "mergeVary hs = Inr merged"
  shows "headers_get merged ''Vary'' =
     (case headers_get hs ''Vary'' of
        None \<Rightarrow> Some ''accept-encoding''
      | Some vary \<Rightarrow>
          if vary = [] then Some ''accept-encoding''
          else if ''*'' \<in> set (headerValueArray vary) then Some vary
          else Some (normalize_value (join '', ''
                 (rev (remdups (rev (headerValueArray vary)))
                  @ (if ''accept-encoding'' \<in> set (headerValueArray vary) then []
                     else [''accept-encoding''])))))"
proof (cases "headers_get hs ''Vary''")
  case None
  with assms show ?thesis
    by (auto simp: mergeVary_def headers_set_accept_encoding headers_get_def)
next
  case (Some vary)
  show ?thesis
  proof (cases "vary = []")
    case True
    with Some assms show ?thesis
      by (auto simp: mergeVary_def headers_set_accept_encoding headers_get_def)
  next
    case False
    show ?thesis
    proof (cases "''*'' \<in> set (headerValueArray vary)")
      case True
      with Some False assms show ?thesis by (auto simp: mergeVary_def)
    next
      case star: False
      with Some False assms have
        "headers_set hs ''Vary''
           (join '', '' (filter_first_index (headerValueArray vary @ [''accept-encoding''])))
         = Inr merged"
        by (simp add: mergeVary_def)
      from headers_set_Inr [OF this] Some False star show ?thesis
        by (simp add: headers_get_def filter_first_index_snoc filter_first_index_remdups)
    qed
  qed
qed

lemma rewrite_Inr:
  assumes "rewrite response encoding b = Inr r"
  shows "\<exists>merged. mergeVary (headers response) = Inr merged
           \<and> headers r = merged(''content-encoding'' \<mapsto> token encoding)
           \<and> status r = status response \<and> statusText r = statusText response \<and> body r = b"
  using assms
  by (auto simp: rewrite_def headers_set_token new_Response_def split: sum.splits if_splits)

lemma rewrite_Vary:
  assumes "rewrite response encoding b = Inr r"
  shows "headers_get (headers r) ''Vary'' =
     (case headers_get (headers response) ''Vary'' of
        None \<Rightarrow> Some ''accept-encoding''
      | Some vary \<Rightarrow>
          if vary = [] then Some ''accept-encoding''
          else if ''*'' \<in> set (headerValueArray vary) then Some vary
          else Some (normalize_value (join '', ''
                 (rev (remdups (rev (headerValueArray vary)))
                  @ (if ''accept-encoding'' \<in> set (headerValueArray vary) then []
                     else [''accept-encoding''])))))"
proof -
  from rewrite_Inr [OF assms] obtain merged
    where m: "mergeVary (headers response) = Inr merged"
      and h: "headers r = merged(''content-encoding'' \<mapsto> token encoding)"
    by blast
  have "headers_get (headers r) ''Vary'' = headers_get merged ''Vary''"
    by (simp add: h headers_get_def)
  with mergeVary_Vary [OF m] show ?thesis by simp
qed

lemma rewrite_Content_Encoding:
  assumes "rewrite response encoding b = Inr r"
  shows "headers_get (headers r) ''Content-Encoding'' = Some (token encoding)"
  using rewrite_Inr [OF assms] by (auto simp: headers_get_def)

lemma rewrite_null_body_status:
  assumes "status response = 204 \<or> status response = 205"
  shows "\<exists>e. rewrite response encoding b = Inl e"
  using assms
  by (auto simp: rewrite_def new_Response_def null_body_status_def split: sum.splits)

section \<open>Facts about the examples\<close>

lemma compression_buffered:
  "defaultEncodings (compression (Some (buffered_options t))) = [Br, Gzip, Deflate]"
  "threshold (compression (Some (buffered_options t))) = (case t of None \<Rightarrow> 1024 | Some n \<Rightarrow> n)"
  "cacheTTL (compression (Some (buffered_options t))) = 86400"
  "disableByHeader (compression (Some (buffered_options t))) = True"
  "compressStream (compression (Some (buffered_options t))) = False"
  "zlibOptions (compression (Some (buffered_options t))) = [''level'' \<mapsto> JNum 6]"
  by (simp_all add: compression_def nullish_def buffered_options_def spread_def)

lemma encodings_gzip_request:
  "defaultEncodings cfg = [Br, Gzip, Deflate] \<Longrightarrow> encodings cfg gzip_request = [Gzip]"
  by (simp add: encodings_def acceptEncodings_def gzip_request_def headers_get_def split_def)

lemma gzip_request_no_optout:
  "truthy (headers_get (req_headers gzip_request) ''x-no-compression'') = False"
  by (simp add: truthy_def gzip_request_def headers_get_def)

lemma not_compressible_examples:
  "\<not> regex_test defaultCompressibleTypes ''application/octet-stream-x''"
  "\<not> regex_test defaultCompressibleTypes ''image/png''"
  unfolding classifier_iff by (simp_all add: suffix_to_prefix sublist_Cons_right)

lemma compressible_examples:
  "regex_test defaultCompressibleTypes ''application/json; charset=utf-8''"
  "regex_test defaultCompressibleTypes ''application/octet-stream''"
  unfolding classifier_iff by (simp_all add: suffix_to_prefix sublist_Cons_right)

lemma headers_response200: "headers_get (headers (response200 hs b)) name = hs (toLowerCase name)"
  by (simp add: response200_def headers_get_def)

lemma compressors_example_gzip:
  "compressors example_platform (compression (Some (buffered_options t))) Gzip b = Inr (2 # 6 # b)"
  by (simp add: compression_buffered) (simp add: example_platform_def level_byte_def)

lemma getOrCompress_example_first:
  "getOrCompress example_platform (compression (Some (buffered_options t))) Gzip b now empty_state
   = (Inr (Some (2 # 6 # b)),
      \<lparr>cacheStore = [cacheKey example_platform Gzip b
                        \<mapsto> \<lparr>entry_value = 2 # 6 # b, createdAt = now, entry_TTL = 86400\<rparr>],
       compressorCalls = [(Gzip, b)]\<rparr>)"
  by (simp add: getOrCompress_def cache_has_def cache_set_def empty_state_def Let_def
      compression_buffered compressors_example_gzip del: compressors.simps)

lemma cache_has_after_miss:
  assumes "\<not> fst (cache_has key now c)"
  shows "fst (cache_has key t (cache_set key out ttl now (snd (cache_has key now c))))
         \<longleftrightarrow> t < now + ttl"
  by (simp add: cache_has_def cache_set_def visible_def)

lemma utf8_decode_invalid:
  "utf8_decode [0xFF] = [0xFFFD]" "utf8_decode [0xFE] = [0xFFFD]"
  by (simp_all add: utf8_decode_def utf8_init_def utf8_lead_def)

lemma lookups_after_miss:
  assumes "\<not> fst (cache_has key now c)" and "now \<le> t"
  shows "fst (cache_get k t (snd (cache_has key now c))) = fst (cache_get k t c)"
    and "fst (cache_has k t (snd (cache_has key now c))) = fst (cache_has k t c)"
  using assms
  by (auto simp: cache_has_def cache_get_def visible_def split: option.splits if_splits)

lemma cache_has_absent: "c key = None \<Longrightarrow> snd (cache_has key now c) = c"
  by (simp add: cache_has_def)

lemma cache_has_other: "k \<noteq> key \<Longrightarrow> snd (cache_has key now c) k = c k"
  by (simp add: cache_has_def split: option.splits)

lemma compressors_failing_gzip:
  "compressors failing_platform cfg Gzip b = Inl (Thrown ''zlib'')"
  by (simp add: failing_platform_def)

lemma headerValueArray_examples:
  "headerValueArray ''location, header'' = [''location'', ''header'']"
  "headerValueArray ''Location, Header'' = [''location'', ''header'']"
  "headerValueArray ''Origin,origin , Accept-Encoding'' = [''origin'', ''origin'', ''accept-encoding'']"
  "headerValueArray ''Origin, *'' = [''origin'', ''*'']"
  "headerValueArray ''accept-encoding,'' = [''accept-encoding'', []]"
  by code_simp+

lemma normalize_examples:
  "normalize_value ''location, header, accept-encoding'' = ''location, header, accept-encoding''"
  "normalize_value ''origin, accept-encoding'' = ''origin, accept-encoding''"
  "normalize_value ''accept-encoding, '' = ''accept-encoding,''"
  by code_simp+

lemma mergeVary_defined:
  assumes "headers_get hs ''Vary'' = Some v"
      and "\<not> list_ex forbidden_in_value
               (normalize_value (join '', '' (filter_first_index (headerValueArray v @ [''accept-encoding'']))))"
  shows "\<exists>merged. mergeVary hs = Inr merged"
proof (cases "v = []")
  case True
  with assms(1) show ?thesis by (simp add: mergeVary_def headers_set_accept_encoding)
next
  case False
  with assms show ?thesis by (simp add: mergeVary_def headers_set_def)
qed

lemma middleware_example_buffered:
  assumes "hs ''content-type'' = None" and "t \<le> int (length b)"
  shows "middleware P (compression (Some (buffered_options (Some t)))) gzip_request
           (Inr (response200 hs (Buffer b))) now s =
         (case getOrCompress P (compression (Some (buffered_options (Some t)))) Gzip b now s of
            (Inl e, s') \<Rightarrow> (Inl e, s')
          | (Inr compressed, s') \<Rightarrow>
              (rewrite (response200 hs (Buffer b)) Gzip (Buffer (new_Uint8Array compressed)), s'))"
proof -
  let ?cfg = "compression (Some (buffered_options (Some t)))"
  let ?resp = "response200 hs (Buffer b)"
  have "middleware P ?cfg gzip_request (Inr ?resp) now s =
     (case getOrCompress P ?cfg Gzip (arrayBuffer (body ?resp)) now s of
        (Inl e, s') \<Rightarrow> (Inl e, s')
      | (Inr compressed, s') \<Rightarrow>
          (rewrite ?resp Gzip (Buffer (new_Uint8Array compressed)), s'))"
  proof (rule middleware_buffered [where rest = "[]"])
    show "\<not> (disableByHeader ?cfg \<and> truthy (headers_get (req_headers gzip_request) ''x-no-compression''))"
      by (simp add: gzip_request_no_optout)
    show "ok ?resp" by (simp add: ok_def response200_def)
    show "encodings ?cfg gzip_request = [Gzip]"
      by (simp add: encodings_gzip_request compression_buffered)
    show "\<not> (compressStream ?cfg \<and> instanceof_ReadableStream (body ?resp))"
      by (simp add: compression_buffered)
    show "\<not> int (length (arrayBuffer (body ?resp))) < threshold ?cfg"
      using assms by (simp add: compression_buffered response200_def)
    show "headers_get (headers ?resp) ''Content-Type'' = None
           \<or> headers_get (headers ?resp) ''Content-Type'' = Some []
           \<or> (\<exists>ct. headers_get (headers ?resp) ''Content-Type'' = Some ct
                  \<and> regex_test defaultCompressibleTypes ct)"
      using assms by (simp add: response200_def headers_get_def)
  qed
  then show ?thesis by (simp add: response200_def)
qed

lemma reason_phrases:
  "list_all reason_phrase_char ''OK''" "list_all reason_phrase_char ''No Content''"
  by code_simp+

lemma rewrite_response200:
  assumes "mergeVary hs = Inr merged"
  shows "rewrite (response200 hs b0) encoding b =
         Inr \<lparr>status = 200, statusText = ''OK'',
              headers = merged(''content-encoding'' \<mapsto> token encoding), body = b\<rparr>"
  using assms reason_phrases(1)
  by (simp add: rewrite_def headers_set_token new_Response_def null_body_status_def response200_def)

lemma middleware_example_rewritten:
  assumes "hs ''content-type'' = None" and "mergeVary hs = Inr merged"
  shows "middleware example_platform (compression (Some (buffered_options (Some 0)))) gzip_request
           (Inr (response200 hs (Buffer hello))) 0 empty_state
         = (Inr \<lparr>status = 200, statusText = ''OK'',
                 headers = merged(''content-encoding'' \<mapsto> ''gzip''), body = Buffer (2 # 6 # hello)\<rparr>,
            snd (getOrCompress example_platform (compression (Some (buffered_options (Some 0))))
                   Gzip hello 0 empty_state))"
  using assms
  by (simp add: middleware_example_buffered getOrCompress_example_first rewrite_response200
      new_Uint8Array_def)

lemma hello_changed: "Buffer (2 # 6 # hello) \<noteq> Buffer hello"
  by (simp add: hello_def)

lemma body_response200: "body (response200 hs b) = b"
  by (simp add: response200_def)

lemma vary_example_rewritten:
  assumes "\<not> list_ex forbidden_in_value
               (normalize_value (join '', '' (filter_first_index (headerValueArray v @ [''accept-encoding'']))))"
  shows "\<exists>r s'. middleware example_platform (compression (Some (buffered_options (Some 0))))
                  gzip_request (Inr (response200 [''vary'' \<mapsto> v] (Buffer hello))) 0 empty_state
                = (Inr r, s')
              \<and> r \<noteq> response200 [''vary'' \<mapsto> v] (Buffer hello)"
proof -
  have "headers_get [''vary'' \<mapsto> v] ''Vary'' = Some v" by (simp add: headers_get_def)
  from mergeVary_defined [OF this assms] obtain merged
    where mv: "mergeVary [''vary'' \<mapsto> v] = Inr merged" by blast
  have ct: "[''vary'' \<mapsto> v] ''content-type'' = None" by simp
  have "\<lparr>status = 200, statusText = ''OK'',
         headers = merged(''content-encoding'' \<mapsto> ''gzip''), body = Buffer (2 # 6 # hello)\<rparr>
        \<noteq> response200 [''vary'' \<mapsto> v] (Buffer hello)"
    using hello_changed by (simp add: response200_def)
  with middleware_example_rewritten [OF ct mv] show ?thesis by blast
qed

lemma vary_examples_valid:
  "\<not> list_ex forbidden_in_value (normalize_value (join '', ''
       (filter_first_index (headerValueArray ''location, header'' @ [''accept-encoding'']))))"
  "\<not> list_ex forbidden_in_value (normalize_value (join '', ''
       (filter_first_index (headerValueArray ''Location, Header'' @ [''accept-encoding'']))))"
  "\<not> list_ex forbidden_in_value (normalize_value (join '', ''
       (filter_first_index (headerValueArray ''Origin,origin , Accept-Encoding'' @ [''accept-encoding'']))))"
  "\<not> list_ex forbidden_in_value (normalize_value (join '', ''
       (filter_first_index (headerValueArray ''Origin, *'' @ [''accept-encoding'']))))"
  "\<not> list_ex forbidden_in_value (normalize_value (join '', ''
       (filter_first_index (headerValueArray ''accept-encoding,'' @ [''accept-encoding'']))))"
  by code_simp+

lemma encodings_spaced_request:
  "defaultEncodings cfg = [Br, Gzip, Deflate] \<Longrightarrow>
   encodings cfg (request_accepting ''gzip, deflate'') = [Gzip, Deflate]"
  by (simp add: encodings_def acceptEncodings_def request_accepting_def headers_get_def split_def)

lemma encodings_unspaced_request:
  "defaultEncodings cfg = [Br, Gzip, Deflate] \<Longrightarrow>
   encodings cfg (request_accepting ''gzip,deflate'') = []"
  by (simp add: encodings_def acceptEncodings_def request_accepting_def headers_get_def split_def)

section \<open>The claims\<close>

text \<open>
  C1. The client's list is cut at comma-space only, so the filter does not see the tokens
  of \<open>Accept-Encoding: gzip,deflate\<close>: no configured encoding survives and the response
  comes back uncompressed, although the client accepts gzip and deflate. With
  \<open>Accept-Encoding: gzip, deflate\<close> the configured order br, gzip, deflate filters to
  gzip, deflate and the response is compressed with gzip.
\<close>

theorem negotiation_needs_comma_space:
  "encodings (compression (Some (buffered_options (Some 1)))) (request_accepting ''gzip,deflate'') = []
   \<and> middleware P (compression (Some (buffered_options (Some 1))))
       (request_accepting ''gzip,deflate'') (Inr response) now s
     = (Inr response, s)
   \<and> encodings (compression (Some (buffered_options (Some 1)))) (request_accepting ''gzip, deflate'')
     = [Gzip, Deflate]
   \<and> response_header ''Content-Encoding''
       (fst (middleware example_platform (compression (Some (buffered_options (Some 1))))
              (request_accepting ''gzip, deflate'') (Inr (response200 Map.empty (Buffer hello)))
              0 empty_state))
     = Inr (Some ''gzip'')"
proof -
  let ?cfg = "compression (Some (buffered_options (Some 1)))"
  let ?resp = "response200 Map.empty (Buffer hello)"
  have e0: "encodings ?cfg (request_accepting ''gzip,deflate'') = []"
    by (simp add: encodings_unspaced_request compression_buffered)
  have e1: "encodings ?cfg (request_accepting ''gzip, deflate'') = [Gzip, Deflate]"
    by (simp add: encodings_spaced_request compression_buffered)
  have mv: "mergeVary Map.empty = Inr [''vary'' \<mapsto> ''accept-encoding'']"
    by (simp add: mergeVary_def headers_get_def headers_set_accept_encoding)
  have "middleware example_platform ?cfg (request_accepting ''gzip, deflate'') (Inr ?resp) 0 empty_state =
     (case getOrCompress example_platform ?cfg Gzip (arrayBuffer (body ?resp)) 0 empty_state of
        (Inl e, s') \<Rightarrow> (Inl e, s')
      | (Inr compressed, s') \<Rightarrow>
          (rewrite ?resp Gzip (Buffer (new_Uint8Array compressed)), s'))"
  proof (rule middleware_buffered [where rest = "[Deflate]"])
    show "\<not> (disableByHeader ?cfg
              \<and> truthy (headers_get (req_headers (request_accepting ''gzip, deflate'')) ''x-no-compression''))"
      by (simp add: truthy_def request_accepting_def headers_get_def)
    show "ok ?resp" by (simp add: ok_def response200_def)
    show "encodings ?cfg (request_accepting ''gzip, deflate'') = [Gzip, Deflate]" by (rule e1)
    show "\<not> (compressStream ?cfg \<and> instanceof_ReadableStream (body ?resp))"
      by (simp add: compression_buffered)
    show "\<not> int (length (arrayBuffer (body ?resp))) < threshold ?cfg"
      by (simp add: compression_buffered response200_def hello_def)
    show "headers_get (headers ?resp) ''Content-Type'' = None
           \<or> headers_get (headers ?resp) ''Content-Type'' = Some []
           \<or> (\<exists>ct. headers_get (headers ?resp) ''Content-Type'' = Some ct
                  \<and> regex_test defaultCompressibleTypes ct)"
      by (simp add: headers_response200)
  qed
  then have "response_header ''Content-Encoding''
       (fst (middleware example_platform ?cfg (request_accepting ''gzip, deflate'') (Inr ?resp)
              0 empty_state))
     = Inr (Some ''gzip'')"
    by (simp add: body_response200 getOrCompress_example_first rewrite_response200 [OF mv]
        response_header_def headers_get_def)
  with e0 e1 middleware_no_encoding [OF e0] show ?thesis by simp
qed

text \<open>
  C2. A call of \<open>getOrCompress\<close> that finds no unexpired entry for its key invokes the
  compressor once, stores the result under the key with the configured TTL and returns
  it; every later call for the same algorithm and body before the TTL has run out returns
  the same bytes and leaves the state, the log of compressor calls included, as it is.
  In general, whenever a call has returned some bytes and the entry of the key is
  unexpired at the time of a second call, the second call returns these bytes and
  changes nothing.
\<close>

theorem getOrCompress_caching:
  "(\<not> fst (cache_has (cacheKey P algorithm buffer) t1 (cacheStore s))
      \<and> compressors P cfg algorithm buffer = Inr out \<longrightarrow>
      (\<exists>s1. getOrCompress P cfg algorithm buffer t1 s = (Inr (Some out), s1)
         \<and> compressorCalls s1 = compressorCalls s @ [(algorithm, buffer)]
         \<and> cacheStore s1 (cacheKey P algorithm buffer)
             = Some \<lparr>entry_value = out, createdAt = t1, entry_TTL = cacheTTL cfg\<rparr>
         \<and> (\<forall>t2. t2 < t1 + cacheTTL cfg \<longrightarrow>
               getOrCompress P cfg algorithm buffer t2 s1 = (Inr (Some out), s1))))
   \<and> (getOrCompress P cfg algorithm buffer t1 s = (Inr (Some out), s1)
      \<and> fst (cache_has (cacheKey P algorithm buffer) t2 (cacheStore s1)) \<longrightarrow>
      getOrCompress P cfg algorithm buffer t2 s1 = (Inr (Some out), s1))"
proof (intro conjI impI)
  let ?key = "cacheKey P algorithm buffer"
  assume h: "\<not> fst (cache_has ?key t1 (cacheStore s)) \<and> compressors P cfg algorithm buffer = Inr out"
  define c1 where "c1 = snd (cache_has ?key t1 (cacheStore s))"
  define s1 where "s1 = s\<lparr>cacheStore := cache_set ?key out (cacheTTL cfg) t1 c1,
                          compressorCalls := compressorCalls s @ [(algorithm, buffer)]\<rparr>"
  have first: "getOrCompress P cfg algorithm buffer t1 s = (Inr (Some out), s1)"
    using h by (simp add: getOrCompress_miss Let_def s1_def c1_def)
  have calls: "compressorCalls s1 = compressorCalls s @ [(algorithm, buffer)]"
    by (simp add: s1_def)
  have entry: "cacheStore s1 ?key = Some \<lparr>entry_value = out, createdAt = t1, entry_TTL = cacheTTL cfg\<rparr>"
    by (simp add: s1_def cache_set_def)
  have again: "getOrCompress P cfg algorithm buffer t2 s1 = (Inr (Some out), s1)"
    if "t2 < t1 + cacheTTL cfg" for t2
    using getOrCompress_hit [OF entry, of t2 cfg] that by (simp add: visible_def)
  show "\<exists>s1. getOrCompress P cfg algorithm buffer t1 s = (Inr (Some out), s1)
         \<and> compressorCalls s1 = compressorCalls s @ [(algorithm, buffer)]
         \<and> cacheStore s1 ?key = Some \<lparr>entry_value = out, createdAt = t1, entry_TTL = cacheTTL cfg\<rparr>
         \<and> (\<forall>t2. t2 < t1 + cacheTTL cfg \<longrightarrow>
               getOrCompress P cfg algorithm buffer t2 s1 = (Inr (Some out), s1))"
    using first calls entry again by blast
next
  assume "getOrCompress P cfg algorithm buffer t1 s = (Inr (Some out), s1)
      \<and> fst (cache_has (cacheKey P algorithm buffer) t2 (cacheStore s1))"
  then show "getOrCompress P cfg algorithm buffer t2 s1 = (Inr (Some out), s1)"
    using getOrCompress_again [of P cfg algorithm buffer t1 s out s1 algorithm buffer t2 cfg]
    by simp
qed

theorem getOrCompress_caching_witness:
  "getOrCompress example_platform (compression (Some (buffered_options None))) Gzip hello 0 empty_state
     = (Inr (Some (2 # 6 # hello)), hello_cached)
   \<and> getOrCompress example_platform (compression (Some (buffered_options None))) Gzip hello 86399
       hello_cached
     = (Inr (Some (2 # 6 # hello)), hello_cached)"
proof -
  let ?cfg = "compression (Some (buffered_options None))"
  have first: "getOrCompress example_platform ?cfg Gzip hello 0 empty_state
               = (Inr (Some (2 # 6 # hello)), hello_cached)"
    by (simp add: getOrCompress_example_first hello_cached_def)
  have window: "fst (cache_has (cacheKey example_platform Gzip hello) 86399 (cacheStore hello_cached))"
    by (simp add: cache_has_def hello_cached_def visible_def)
  from getOrCompress_caching [of example_platform Gzip hello 0 empty_state ?cfg "2 # 6 # hello"
      hello_cached 86399] first window
  show ?thesis by blast
qed

text \<open>
  C3. On the buffered path (stream compression switched off, or a body that is not a
  \<open>ReadableStream\<close>) a response whose materialized body is shorter than the threshold
  is returned as it came, headers included, and the shared state is not touched.
\<close>

theorem threshold_gate_buffered:
  assumes "\<not> (compressStream cfg \<and> instanceof_ReadableStream (body response))"
      and "int (length (arrayBuffer (body response))) < threshold cfg"
  shows "middleware P cfg req (Inr response) now s = (Inr response, s)"
  using assms by (rule middleware_small_buffered)

theorem threshold_gate_buffered_witness:
  "middleware example_platform (compression (Some (buffered_options None))) gzip_request
     (Inr (response200 Map.empty (ReadableStream [hello]))) 0 empty_state
   = (Inr (response200 Map.empty (ReadableStream [hello])), empty_state)"
  using threshold_gate_buffered
    [of "compression (Some (buffered_options None))" "response200 Map.empty (ReadableStream [hello])"
        example_platform gzip_request 0 empty_state]
  by (simp add: compression_buffered response200_def hello_def)

theorem threshold_gate_stream_counterexample:
  "int (length (arrayBuffer (body (response200 Map.empty (ReadableStream [hello])))))
     < threshold (compression (Some stream_options))
   \<and> response_header ''Content-Encoding''
       (fst (middleware example_platform (compression (Some stream_options)) gzip_request
              (Inr (response200 Map.empty (ReadableStream [hello]))) 0 empty_state))
     = Inr (Some ''gzip'')
   \<and> response_header ''Vary''
       (fst (middleware example_platform (compression (Some stream_options)) gzip_request
              (Inr (response200 Map.empty (ReadableStream [hello]))) 0 empty_state))
     = Inr (Some ''accept-encoding'')
   \<and> response_header ''Content-Encoding'' (Inr (response200 Map.empty (ReadableStream [hello])))
     = Inr None"
proof -
  let ?cfg = "compression (Some stream_options)"
  let ?resp = "response200 Map.empty (ReadableStream [hello])"
  have c: "defaultEncodings ?cfg = [Br, Gzip, Deflate]" "threshold ?cfg = 1024"
    "disableByHeader ?cfg = True" "compressStream ?cfg = True"
    by (simp_all add: compression_def nullish_def stream_options_def)
  have e: "encodings ?cfg gzip_request = [Gzip]"
    by (simp add: encodings_gzip_request c)
  have mv: "mergeVary Map.empty = Inr [''vary'' \<mapsto> ''accept-encoding'']"
    by (simp add: mergeVary_def headers_get_def headers_set_accept_encoding)
  have "middleware example_platform ?cfg gzip_request (Inr ?resp) 0 empty_state =
     (rewrite ?resp Gzip
        (ReadableStream (CompressionStream example_platform Gzip (options ?cfg) [hello])),
      empty_state)"
    by (rule middleware_stream [where rest = "[]"])
       (simp_all add: gzip_request_no_optout ok_def response200_def e c)
  then have m: "fst (middleware example_platform ?cfg gzip_request (Inr ?resp) 0 empty_state)
        = Inr \<lparr>status = 200, statusText = ''OK'',
               headers = [''vary'' \<mapsto> ''accept-encoding'', ''content-encoding'' \<mapsto> ''gzip''],
               body = ReadableStream (CompressionStream example_platform Gzip (options ?cfg) [hello])\<rparr>"
    by (simp add: rewrite_response200 [OF mv])
  have small: "int (length (arrayBuffer (body ?resp))) < threshold ?cfg"
    by (simp add: c response200_def hello_def)
  have none: "response_header ''Content-Encoding'' (Inr ?resp) = Inr None"
    by (simp add: response_header_def headers_response200)
  show ?thesis
    unfolding m using small none by (simp add: response_header_def headers_get_def)
qed

text \<open>
  C4. On the buffered path a response with a present, non-empty \<open>Content-Type\<close> that the
  classifier does not match is returned as it came; with an absent or empty
  \<open>Content-Type\<close> a response that passes the other gates goes to the buffered
  compressor, and the outcome is that of the compressor and of the rewriting of its
  result. The classifier matches a value exactly when it starts with \<open>text/\<close> not
  directly followed by \<open>event-stream\<close>, or when one of +json, /json, +text, /text, +xml,
  /xml, octet-stream stands at the end of the value or directly before a semicolon.
\<close>

theorem content_type_gate:
  assumes "\<not> (compressStream cfg \<and> instanceof_ReadableStream (body response))"
  shows "(\<forall>ct. headers_get (headers response) ''Content-Type'' = Some ct \<and> ct \<noteq> []
              \<and> \<not> regex_test defaultCompressibleTypes ct \<longrightarrow>
            middleware P cfg req (Inr response) now s = (Inr response, s))
       \<and> ((headers_get (headers response) ''Content-Type'' = None
             \<or> headers_get (headers response) ''Content-Type'' = Some [])
            \<and> \<not> (disableByHeader cfg \<and> truthy (headers_get (req_headers req) ''x-no-compression''))
            \<and> ok response \<and> encodings cfg req = encoding # rest
            \<and> threshold cfg \<le> int (length (arrayBuffer (body response))) \<longrightarrow>
            middleware P cfg req (Inr response) now s =
              (case getOrCompress P cfg encoding (arrayBuffer (body response)) now s of
                 (Inl e, s') \<Rightarrow> (Inl e, s')
               | (Inr compressed, s') \<Rightarrow>
                   (rewrite response encoding (Buffer (new_Uint8Array compressed)), s')))
       \<and> (\<forall>ct. regex_test defaultCompressibleTypes ct \<longleftrightarrow>
            (prefix ''text/'' ct \<and> \<not> prefix ''text/event-stream'' ct) \<or>
            (\<exists>t \<in> set [''+json'', ''/json'', ''+text'', ''/text'', ''+xml'', ''/xml'', ''octet-stream''].
               suffix t ct \<or> sublist (t @ '';'') ct))"
proof (intro conjI allI impI)
  fix ct
  assume "headers_get (headers response) ''Content-Type'' = Some ct \<and> ct \<noteq> []
          \<and> \<not> regex_test defaultCompressibleTypes ct"
  with assms show "middleware P cfg req (Inr response) now s = (Inr response, s)"
    using middleware_not_compressible by blast
next
  assume h: "(headers_get (headers response) ''Content-Type'' = None
             \<or> headers_get (headers response) ''Content-Type'' = Some [])
            \<and> \<not> (disableByHeader cfg \<and> truthy (headers_get (req_headers req) ''x-no-compression''))
            \<and> ok response \<and> encodings cfg req = encoding # rest
            \<and> threshold cfg \<le> int (length (arrayBuffer (body response)))"
  show "middleware P cfg req (Inr response) now s =
              (case getOrCompress P cfg encoding (arrayBuffer (body response)) now s of
                 (Inl e, s') \<Rightarrow> (Inl e, s')
               | (Inr compressed, s') \<Rightarrow>
                   (rewrite response encoding (Buffer (new_Uint8Array compressed)), s'))"
  proof (rule middleware_buffered)
    show "\<not> int (length (arrayBuffer (body response))) < threshold cfg" using h by simp
    show "headers_get (headers response) ''Content-Type'' = None
           \<or> headers_get (headers response) ''Content-Type'' = Some []
           \<or> (\<exists>ct. headers_get (headers response) ''Content-Type'' = Some ct
                  \<and> regex_test defaultCompressibleTypes ct)" using h by blast
  qed (use h assms in simp_all)
next
  fix ct
  show "regex_test defaultCompressibleTypes ct \<longleftrightarrow>
            (prefix ''text/'' ct \<and> \<not> prefix ''text/event-stream'' ct) \<or>
            (\<exists>t \<in> set [''+json'', ''/json'', ''+text'', ''/text'', ''+xml'', ''/xml'', ''octet-stream''].
               suffix t ct \<or> sublist (t @ '';'') ct)"
    by (rule classifier_iff)
qed

theorem content_type_gate_witness:
  "middleware example_platform (compression (Some (buffered_options (Some 1)))) gzip_request
     (Inr (response200 [''content-type'' \<mapsto> ''image/png''] (Buffer hello))) 0 empty_state
   = (Inr (response200 [''content-type'' \<mapsto> ''image/png''] (Buffer hello)), empty_state)
   \<and> response_header ''Content-Encoding''
       (fst (middleware example_platform (compression (Some (buffered_options (Some 1))))
              gzip_request (Inr (response200 [''content-type'' \<mapsto> []] (Buffer hello))) 0 empty_state))
     = Inr (Some ''gzip'')
   \<and> fst (middleware example_platform (compression (Some (buffered_options (Some 0))))
            gzip_request
            (Inr \<lparr>status = 204, statusText = ''No Content'', headers = Map.empty, body = Buffer []\<rparr>)
            0 empty_state)
     = Inl TypeError
   \<and> regex_test defaultCompressibleTypes ''application/json; charset=utf-8''"
proof -
  let ?cfg = "compression (Some (buffered_options (Some 1)))"
  let ?png = "response200 [''content-type'' \<mapsto> ''image/png''] (Buffer hello)"
  let ?empty = "response200 [''content-type'' \<mapsto> []] (Buffer hello)"
  have b: "\<not> (compressStream ?cfg \<and> instanceof_ReadableStream (body r))" for r
    by (simp add: compression_buffered)
  have 1: "middleware example_platform ?cfg gzip_request (Inr ?png) 0 empty_state
           = (Inr ?png, empty_state)"
    using content_type_gate [OF b, where response = ?png and P = example_platform
        and req = gzip_request and now = 0 and s = empty_state]
      not_compressible_examples
    by (simp add: response200_def headers_get_def)
  have 2: "middleware example_platform ?cfg gzip_request (Inr ?empty) 0 empty_state =
              (case getOrCompress example_platform ?cfg Gzip (arrayBuffer (body ?empty)) 0 empty_state of
                 (Inl e, s') \<Rightarrow> (Inl e, s')
               | (Inr compressed, s') \<Rightarrow>
                   (rewrite ?empty Gzip (Buffer (new_Uint8Array compressed)), s'))"
  proof (rule content_type_gate [OF b, where response = ?empty and P = example_platform
        and req = gzip_request and now = 0 and s = empty_state and encoding = Gzip and rest = "[]",
        THEN conjunct2, THEN conjunct1, THEN mp], intro conjI)
    show "headers_get (headers ?empty) ''Content-Type'' = None
          \<or> headers_get (headers ?empty) ''Content-Type'' = Some []"
      by (simp add: response200_def headers_get_def)
    show "\<not> (disableByHeader ?cfg \<and> truthy (headers_get (req_headers gzip_request) ''x-no-compression''))"
      by (simp add: gzip_request_no_optout)
    show "ok ?empty" by (simp add: ok_def response200_def)
    show "encodings ?cfg gzip_request = [Gzip]"
      by (simp add: encodings_gzip_request compression_buffered)
    show "threshold ?cfg \<le> int (length (arrayBuffer (body ?empty)))"
      by (simp add: compression_buffered response200_def hello_def)
  qed
  have 3: "response_header ''Content-Encoding''
             (fst (middleware example_platform ?cfg gzip_request (Inr ?empty) 0 empty_state))
           = Inr (Some ''gzip'')"
  proof -
    have mv: "mergeVary [''content-type'' \<mapsto> []]
              = Inr [''content-type'' \<mapsto> [], ''vary'' \<mapsto> ''accept-encoding'']"
      by (simp add: mergeVary_def headers_get_def headers_set_accept_encoding)
    show ?thesis
      unfolding 2
      by (simp add: body_response200 getOrCompress_example_first
          rewrite_response200 [OF mv] response_header_def headers_get_def)
  qed
  let ?cfg0 = "compression (Some (buffered_options (Some 0)))"
  let ?nc = "\<lparr>status = 204, statusText = ''No Content'', headers = Map.empty, body = Buffer []\<rparr>"
  have b0: "\<not> (compressStream ?cfg0 \<and> instanceof_ReadableStream (body r))" for r
    by (simp add: compression_buffered)
  have 4: "middleware example_platform ?cfg0 gzip_request (Inr ?nc) 0 empty_state =
              (case getOrCompress example_platform ?cfg0 Gzip (arrayBuffer (body ?nc)) 0 empty_state of
                 (Inl e, s') \<Rightarrow> (Inl e, s')
               | (Inr compressed, s') \<Rightarrow>
                   (rewrite ?nc Gzip (Buffer (new_Uint8Array compressed)), s'))"
  proof (rule content_type_gate [OF b0, where response = ?nc and P = example_platform
        and req = gzip_request and now = 0 and s = empty_state and encoding = Gzip and rest = "[]",
        THEN conjunct2, THEN conjunct1, THEN mp], intro conjI)
    show "headers_get (headers ?nc) ''Content-Type'' = None
          \<or> headers_get (headers ?nc) ''Content-Type'' = Some []"
      by (simp add: headers_get_def)
    show "\<not> (disableByHeader ?cfg0 \<and> truthy (headers_get (req_headers gzip_request) ''x-no-compression''))"
      by (simp add: gzip_request_no_optout)
    show "ok ?nc" by (simp add: ok_def)
    show "encodings ?cfg0 gzip_request = [Gzip]"
      by (simp add: encodings_gzip_request compression_buffered)
    show "threshold ?cfg0 \<le> int (length (arrayBuffer (body ?nc)))"
      by (simp add: compression_buffered)
  qed
  have 5: "fst (middleware example_platform ?cfg0 gzip_request (Inr ?nc) 0 empty_state) = Inl TypeError"
    unfolding 4
    by (simp add: getOrCompress_example_first rewrite_def mergeVary_def headers_get_def
        headers_set_accept_encoding headers_set_token [of _ Gzip, simplified]
        new_Response_def null_body_status_def reason_phrases)
  show ?thesis using 1 3 5 compressible_examples(1) by simp
qed

theorem content_type_octet_stream_counterexample:
  "sublist ''octet-stream'' ''application/octet-stream-x''
   \<and> \<not> regex_test defaultCompressibleTypes ''application/octet-stream-x''
   \<and> middleware example_platform (compression (Some (buffered_options (Some 1)))) gzip_request
       (Inr (response200 [''content-type'' \<mapsto> ''application/octet-stream-x''] (Buffer hello)))
       0 empty_state
     = (Inr (response200 [''content-type'' \<mapsto> ''application/octet-stream-x''] (Buffer hello)),
        empty_state)"
proof -
  have "sublist ''octet-stream'' ''application/octet-stream-x''"
    by (simp add: sublist_Cons_right)
  moreover have "middleware example_platform (compression (Some (buffered_options (Some 1))))
       gzip_request
       (Inr (response200 [''content-type'' \<mapsto> ''application/octet-stream-x''] (Buffer hello)))
       0 empty_state
     = (Inr (response200 [''content-type'' \<mapsto> ''application/octet-stream-x''] (Buffer hello)),
        empty_state)"
    by (rule middleware_not_compressible [where ct = "''application/octet-stream-x''"])
       (simp_all add: compression_buffered response200_def headers_get_def
          not_compressible_examples)
  ultimately show ?thesis using not_compressible_examples(1) by simp
qed

text \<open>
  C5. When the middleware rewrites the response, the \<open>Vary\<close> header of the result is
  \<open>accept-encoding\<close> if the response had none (or an empty one); it is the old value,
  untouched, if one of its comma-separated tokens, trimmed and lower-cased, is \<open>*\<close>;
  otherwise it is the trimmed, lower-cased tokens in their order, each kept at its first
  occurrence only, followed by \<open>accept-encoding\<close> unless that token is among them, joined
  with comma-space, and with the white space at both ends of the joined value removed, as
  the \<open>Headers\<close> object does when it stores a value.
\<close>

theorem vary_merge:
  assumes "middleware P cfg req (Inr response) now s = (Inr r, s')" and "r \<noteq> response"
  shows "headers_get (headers r) ''Vary'' =
     (case headers_get (headers response) ''Vary'' of
        None \<Rightarrow> Some ''accept-encoding''
      | Some vary \<Rightarrow>
          if vary = [] then Some ''accept-encoding''
          else if ''*'' \<in> set (headerValueArray vary) then Some vary
          else Some (normalize_value (join '', ''
                 (rev (remdups (rev (headerValueArray vary)))
                  @ (if ''accept-encoding'' \<in> set (headerValueArray vary) then []
                     else [''accept-encoding''])))))"
proof -
  from middleware_rewritten [OF assms] obtain encoding b
    where "rewrite response encoding b = Inr r"
    by blast
  then show ?thesis by (rule rewrite_Vary)
qed

theorem vary_merge_witness:
  "response_header ''Vary''
     (fst (middleware example_platform (compression (Some (buffered_options (Some 0))))
            gzip_request (Inr (response200 [''vary'' \<mapsto> ''location, header''] (Buffer hello)))
            0 empty_state))
   = Inr (Some ''location, header, accept-encoding'')
   \<and> response_header ''Vary''
     (fst (middleware example_platform (compression (Some (buffered_options (Some 0))))
            gzip_request
            (Inr (response200 [''vary'' \<mapsto> ''Origin,origin , Accept-Encoding''] (Buffer hello)))
            0 empty_state))
   = Inr (Some ''origin, accept-encoding'')
   \<and> response_header ''Vary''
     (fst (middleware example_platform (compression (Some (buffered_options (Some 0))))
            gzip_request (Inr (response200 [''vary'' \<mapsto> ''Origin, *''] (Buffer hello)))
            0 empty_state))
   = Inr (Some ''Origin, *'')
   \<and> response_header ''Vary''
     (fst (middleware example_platform (compression (Some (buffered_options (Some 0))))
            gzip_request (Inr (response200 [''vary'' \<mapsto> ''accept-encoding,''] (Buffer hello)))
            0 empty_state))
   = Inr (Some ''accept-encoding,'')"
proof -
  let ?cfg = "compression (Some (buffered_options (Some 0)))"
  let ?run = "\<lambda>v. middleware example_platform ?cfg gzip_request
                     (Inr (response200 [''vary'' \<mapsto> v] (Buffer hello))) 0 empty_state"
  have 1: "response_header ''Vary'' (fst (?run ''location, header''))
           = Inr (Some ''location, header, accept-encoding'')"
  proof -
    from vary_example_rewritten [OF vary_examples_valid(1)] obtain r s'
      where m: "?run ''location, header'' = (Inr r, s')"
        and ne: "r \<noteq> response200 [''vary'' \<mapsto> ''location, header''] (Buffer hello)"
      by blast
    have "headers_get (headers r) ''Vary'' = Some ''location, header, accept-encoding''"
      using vary_merge [OF m ne]
      by (simp add: headers_response200 headerValueArray_examples normalize_examples)
    then show ?thesis by (simp add: m response_header_def)
  qed
  have 2: "response_header ''Vary'' (fst (?run ''Origin,origin , Accept-Encoding''))
           = Inr (Some ''origin, accept-encoding'')"
  proof -
    from vary_example_rewritten [OF vary_examples_valid(3)] obtain r s'
      where m: "?run ''Origin,origin , Accept-Encoding'' = (Inr r, s')"
        and ne: "r \<noteq> response200 [''vary'' \<mapsto> ''Origin,origin , Accept-Encoding''] (Buffer hello)"
      by blast
    have "headers_get (headers r) ''Vary'' = Some ''origin, accept-encoding''"
      using vary_merge [OF m ne]
      by (simp add: headers_response200 headerValueArray_examples normalize_examples)
    then show ?thesis by (simp add: m response_header_def)
  qed
  have 3: "response_header ''Vary'' (fst (?run ''Origin, *'')) = Inr (Some ''Origin, *'')"
  proof -
    from vary_example_rewritten [OF vary_examples_valid(4)] obtain r s'
      where m: "?run ''Origin, *'' = (Inr r, s')"
        and ne: "r \<noteq> response200 [''vary'' \<mapsto> ''Origin, *''] (Buffer hello)"
      by blast
    have "headers_get (headers r) ''Vary'' = Some ''Origin, *''"
      using vary_merge [OF m ne]
      by (simp add: headers_response200 headerValueArray_examples)
    then show ?thesis by (simp add: m response_header_def)
  qed
  have 4: "response_header ''Vary'' (fst (?run ''accept-encoding,'')) = Inr (Some ''accept-encoding,'')"
  proof -
    from vary_example_rewritten [OF vary_examples_valid(5)] obtain r s'
      where m: "?run ''accept-encoding,'' = (Inr r, s')"
        and ne: "r \<noteq> response200 [''vary'' \<mapsto> ''accept-encoding,''] (Buffer hello)"
      by blast
    have "headers_get (headers r) ''Vary'' = Some ''accept-encoding,''"
      using vary_merge [OF m ne]
      by (simp add: headers_response200 headerValueArray_examples normalize_examples)
    then show ?thesis by (simp add: m response_header_def)
  qed
  from 1 2 3 4 show ?thesis by simp
qed

theorem vary_case_counterexample:
  "response_header ''Vary''
     (fst (middleware example_platform (compression (Some (buffered_options (Some 0))))
            gzip_request (Inr (response200 [''vary'' \<mapsto> ''Location, Header''] (Buffer hello)))
            0 empty_state))
   = Inr (Some ''location, header, accept-encoding'')
   \<and> ''location, header, accept-encoding'' \<noteq> ''Location, Header, accept-encoding''"
proof -
  let ?cfg = "compression (Some (buffered_options (Some 0)))"
  let ?resp = "response200 [''vary'' \<mapsto> ''Location, Header''] (Buffer hello)"
  from vary_example_rewritten [OF vary_examples_valid(2)] obtain r s'
    where m: "middleware example_platform ?cfg gzip_request (Inr ?resp) 0 empty_state = (Inr r, s')"
      and ne: "r \<noteq> ?resp"
    by blast
  from middleware_rewritten [OF m ne] obtain encoding b
    where "rewrite ?resp encoding b = Inr r" by blast
  from rewrite_Vary [OF this]
  have "headers_get (headers r) ''Vary'' = Some ''location, header, accept-encoding''"
    by (simp add: headers_response200 headerValueArray_examples normalize_examples)
  then show ?thesis by (simp add: m response_header_def)
qed

text \<open>
  C6. The header value is cut at the two-character separator comma-space only:
  \<open>Accept-Encoding: gzip,deflate\<close> is one token, no configured encoding is found in it,
  and the response is returned uncompressed. A lone \<open>*\<close> selects nothing either.
\<close>

theorem accept_encoding_without_space:
  "acceptEncodings \<lparr>req_headers = [''accept-encoding'' \<mapsto> ''gzip,deflate'']\<rparr> = [''gzip,deflate'']
   \<and> encodings (compression None) \<lparr>req_headers = [''accept-encoding'' \<mapsto> ''gzip,deflate'']\<rparr> = []
   \<and> middleware P (compression None) \<lparr>req_headers = [''accept-encoding'' \<mapsto> ''gzip,deflate'']\<rparr>
        (Inr response) now s = (Inr response, s)
   \<and> encodings (compression None) \<lparr>req_headers = [''accept-encoding'' \<mapsto> ''*'']\<rparr> = []"
proof -
  have a: "acceptEncodings \<lparr>req_headers = [''accept-encoding'' \<mapsto> ''gzip,deflate'']\<rparr> = [''gzip,deflate'']"
    by (simp add: acceptEncodings_def headers_get_def toLowerCase_def lower_char_def split_def)
  have b: "acceptEncodings \<lparr>req_headers = [''accept-encoding'' \<mapsto> ''*'']\<rparr> = [''*'']"
    by (simp add: acceptEncodings_def headers_get_def toLowerCase_def lower_char_def split_def)
  have e: "encodings (compression None) \<lparr>req_headers = [''accept-encoding'' \<mapsto> ''gzip,deflate'']\<rparr> = []"
    by (simp add: encodings_def a compression_def nullish_def)
  have f: "encodings (compression None) \<lparr>req_headers = [''accept-encoding'' \<mapsto> ''*'']\<rparr> = []"
    by (simp add: encodings_def b compression_def nullish_def)
  show ?thesis
    using a e f middleware_no_encoding [OF e] by simp
qed

text \<open>
  C7. \<open>compression()\<close> called without options, or with options that leave
  \<open>compressStream\<close> out, has the stream flag set: \<open>options?.compressStream ?? true\<close>.
\<close>

theorem compressStream_default_true:
  "compressStream (compression None) = True
   \<and> compressStream (compression (Some \<lparr>opt_brotliOptions = None, opt_zlibOptions = None,
        opt_encodings = None, opt_disableByHeader = None, opt_threshold = None,
        opt_compressStream = None, opt_as = None, opt_TTL = None\<rparr>)) = True"
  by (simp add: compression_def nullish_def)

text \<open>
  C8. On the buffered path, when the response passes the gates, the cache has no unexpired
  entry for the key and the compressor throws, the middleware ends with that exception:
  the compressor has been called once, no response is produced, and no entry is stored.
  The cache store is the one the lookup \<open>has\<close> left: every key other than the looked-up
  one is as before, the looked-up key has no entry, every later \<open>get\<close> and \<open>has\<close> answers
  as it would have answered before, and a store without an entry for the key is unchanged.
\<close>

theorem compressor_failure_propagates:
  assumes "\<not> (disableByHeader cfg \<and> truthy (headers_get (req_headers req) ''x-no-compression''))"
      and "ok response"
      and "encodings cfg req = encoding # rest"
      and "\<not> (compressStream cfg \<and> instanceof_ReadableStream (body response))"
      and "\<not> int (length (arrayBuffer (body response))) < threshold cfg"
      and "headers_get (headers response) ''Content-Type'' = None
           \<or> headers_get (headers response) ''Content-Type'' = Some []
           \<or> (\<exists>ct. headers_get (headers response) ''Content-Type'' = Some ct
                  \<and> regex_test defaultCompressibleTypes ct)"
      and miss: "\<not> fst (cache_has (cacheKey P encoding (arrayBuffer (body response))) now (cacheStore s))"
      and throws: "compressors P cfg encoding (arrayBuffer (body response)) = Inl e"
  shows "\<exists>s'. middleware P cfg req (Inr response) now s = (Inl e, s')
          \<and> compressorCalls s' = compressorCalls s @ [(encoding, arrayBuffer (body response))]
          \<and> cacheStore s' (cacheKey P encoding (arrayBuffer (body response))) = None
          \<and> (\<forall>k. k \<noteq> cacheKey P encoding (arrayBuffer (body response)) \<longrightarrow>
                cacheStore s' k = cacheStore s k)
          \<and> (\<forall>k t. now \<le> t \<longrightarrow>
                fst (cache_get k t (cacheStore s')) = fst (cache_get k t (cacheStore s))
                \<and> fst (cache_has k t (cacheStore s')) = fst (cache_has k t (cacheStore s)))
          \<and> (cacheStore s (cacheKey P encoding (arrayBuffer (body response))) = None \<longrightarrow>
                cacheStore s' = cacheStore s)"
proof -
  let ?buffer = "arrayBuffer (body response)"
  let ?key = "cacheKey P encoding ?buffer"
  define s' where "s' = s\<lparr>cacheStore := snd (cache_has ?key now (cacheStore s)),
                          compressorCalls := compressorCalls s @ [(encoding, ?buffer)]\<rparr>"
  have g: "getOrCompress P cfg encoding ?buffer now s = (Inl e, s')"
    using miss throws by (simp add: getOrCompress_miss Let_def s'_def)
  have m: "middleware P cfg req (Inr response) now s = (Inl e, s')"
    unfolding middleware_buffered [OF assms(1-6)] g by simp
  have c: "cacheStore s' = snd (cache_has ?key now (cacheStore s))"
    by (simp add: s'_def)
  show ?thesis
  proof (intro exI [of _ s'] conjI allI impI)
    show "middleware P cfg req (Inr response) now s = (Inl e, s')" by (rule m)
    show "compressorCalls s' = compressorCalls s @ [(encoding, ?buffer)]"
      by (simp add: s'_def)
    show "cacheStore s' ?key = None"
      unfolding c using miss by (rule cache_has_False_key)
    show "cacheStore s' k = cacheStore s k" if "k \<noteq> ?key" for k
      unfolding c using that by (rule cache_has_other)
    show "fst (cache_get k t (cacheStore s')) = fst (cache_get k t (cacheStore s))"
      if "now \<le> t" for k t
      unfolding c using miss that by (rule lookups_after_miss(1))
    show "fst (cache_has k t (cacheStore s')) = fst (cache_has k t (cacheStore s))"
      if "now \<le> t" for k t
      unfolding c using miss that by (rule lookups_after_miss(2))
    show "cacheStore s' = cacheStore s" if "cacheStore s ?key = None"
      unfolding c using that by (rule cache_has_absent)
  qed
qed

theorem compressor_failure_propagates_witness:
  "middleware failing_platform (compression (Some (buffered_options (Some 1)))) gzip_request
     (Inr (response200 Map.empty (Buffer hello))) 0 empty_state
   = (Inl (Thrown ''zlib''), \<lparr>cacheStore = Map.empty, compressorCalls = [(Gzip, hello)]\<rparr>)"
proof -
  let ?cfg = "compression (Some (buffered_options (Some 1)))"
  let ?resp = "response200 Map.empty (Buffer hello)"
  have b: "arrayBuffer (body ?resp) = hello" by (simp add: response200_def)
  have "\<exists>s'. middleware failing_platform ?cfg gzip_request (Inr ?resp) 0 empty_state
               = (Inl (Thrown ''zlib''), s')
          \<and> compressorCalls s' = compressorCalls empty_state @ [(Gzip, arrayBuffer (body ?resp))]
          \<and> cacheStore s' (cacheKey failing_platform Gzip (arrayBuffer (body ?resp))) = None
          \<and> (\<forall>k. k \<noteq> cacheKey failing_platform Gzip (arrayBuffer (body ?resp)) \<longrightarrow>
                cacheStore s' k = cacheStore empty_state k)
          \<and> (\<forall>k t. 0 \<le> t \<longrightarrow>
                fst (cache_get k t (cacheStore s')) = fst (cache_get k t (cacheStore empty_state))
                \<and> fst (cache_has k t (cacheStore s')) = fst (cache_has k t (cacheStore empty_state)))
          \<and> (cacheStore empty_state (cacheKey failing_platform Gzip (arrayBuffer (body ?resp))) = None
               \<longrightarrow> cacheStore s' = cacheStore empty_state)"
    (is "\<exists>s'. ?Q s'")
  proof (rule compressor_failure_propagates [where rest = "[]"])
    show "\<not> (disableByHeader ?cfg \<and> truthy (headers_get (req_headers gzip_request) ''x-no-compression''))"
      by (simp add: gzip_request_no_optout)
    show "ok ?resp" by (simp add: ok_def response200_def)
    show "encodings ?cfg gzip_request = [Gzip]"
      by (simp add: encodings_gzip_request compression_buffered)
    show "\<not> (compressStream ?cfg \<and> instanceof_ReadableStream (body ?resp))"
      by (simp add: compression_buffered)
    show "\<not> int (length (arrayBuffer (body ?resp))) < threshold ?cfg"
      by (simp add: compression_buffered response200_def hello_def)
    show "headers_get (headers ?resp) ''Content-Type'' = None
           \<or> headers_get (headers ?resp) ''Content-Type'' = Some []
           \<or> (\<exists>ct. headers_get (headers ?resp) ''Content-Type'' = Some ct
                  \<and> regex_test defaultCompressibleTypes ct)"
      by (simp add: headers_response200)
    show "\<not> fst (cache_has (cacheKey failing_platform Gzip (arrayBuffer (body ?resp))) 0
                 (cacheStore empty_state))"
      by (simp add: cache_has_def empty_state_def)
    show "compressors failing_platform ?cfg Gzip (arrayBuffer (body ?resp)) = Inl (Thrown ''zlib'')"
      by (rule compressors_failing_gzip)
  qed
  then obtain s' where h: "?Q s'" ..
  note m = h [THEN conjunct1]
  note calls = h [THEN conjunct2, THEN conjunct1]
  note store = h [THEN conjunct2, THEN conjunct2, THEN conjunct2, THEN conjunct2, THEN conjunct2]
  have "cacheStore s' = Map.empty"
    using store by (simp add: empty_state_def)
  moreover have "compressorCalls s' = [(Gzip, hello)]"
    using calls by (simp add: empty_state_def b)
  ultimately have "s' = \<lparr>cacheStore = Map.empty, compressorCalls = [(Gzip, hello)]\<rparr>"
    by (cases s') simp
  with m show ?thesis by simp
qed

text \<open>
  C9. The cache key is the digest of the algorithm token, a colon and the decoded text
  of the body, so two bodies with the same decoded text have the same key for every
  algorithm; and once a call for one of them has returned some bytes, a call for the
  other, made while the entry is unexpired, returns these bytes.
\<close>

theorem cacheKey_factors_through_decoding:
  assumes "textDecoder_decode P buffer1 = textDecoder_decode P buffer2"
  shows "cacheKey P algorithm buffer1 = cacheKey P algorithm buffer2
       \<and> (getOrCompress P cfg algorithm buffer1 t1 s = (Inr (Some out), s1)
            \<and> fst (cache_has (cacheKey P algorithm buffer1) t2 (cacheStore s1)) \<longrightarrow>
          getOrCompress P cfg' algorithm buffer2 t2 s1 = (Inr (Some out), s1))"
proof (intro conjI impI)
  show key: "cacheKey P algorithm buffer1 = cacheKey P algorithm buffer2"
    using assms by (simp add: cacheKey_def)
  assume "getOrCompress P cfg algorithm buffer1 t1 s = (Inr (Some out), s1)
            \<and> fst (cache_has (cacheKey P algorithm buffer1) t2 (cacheStore s1))"
  then show "getOrCompress P cfg' algorithm buffer2 t2 s1 = (Inr (Some out), s1)"
    using getOrCompress_again [of P cfg algorithm buffer1 t1 s out s1 algorithm buffer2 t2 cfg'] key
    by simp
qed

theorem cacheKey_factors_through_decoding_witness:
  "[0xFF] \<noteq> [0xFE :: 8 word]
   \<and> cacheKey example_platform Gzip [0xFF] = cacheKey example_platform Gzip [0xFE]
   \<and> getOrCompress example_platform (compression (Some (buffered_options None))) Gzip [0xFE] 1
       (snd (getOrCompress example_platform (compression (Some (buffered_options None))) Gzip
               [0xFF] 0 empty_state))
     = (Inr (Some [2, 6, 0xFF]),
        snd (getOrCompress example_platform (compression (Some (buffered_options None))) Gzip
               [0xFF] 0 empty_state))"
proof -
  let ?cfg = "compression (Some (buffered_options None))"
  let ?s1 = "snd (getOrCompress example_platform ?cfg Gzip [0xFF] 0 empty_state)"
  have d: "textDecoder_decode example_platform [0xFF] = textDecoder_decode example_platform [0xFE]"
    by (simp add: example_platform_def utf8_decode_invalid)
  have first: "getOrCompress example_platform ?cfg Gzip [0xFF] 0 empty_state
               = (Inr (Some [2, 6, 0xFF]), ?s1)"
    by (simp add: getOrCompress_example_first)
  have window: "fst (cache_has (cacheKey example_platform Gzip [0xFF]) 1 (cacheStore ?s1))"
    by (simp add: getOrCompress_example_first cache_has_def visible_def)
  from cacheKey_factors_through_decoding [OF d, of Gzip ?cfg 0 empty_state "[2, 6, 0xFF]" ?s1 1 ?cfg]
    first window
  show ?thesis by simp
qed

text \<open>
  C10. The cache store is one value shared by all instances. When a call of
  \<open>getOrCompress\<close> under the options of one instance finds no unexpired entry and its
  compressor returns some bytes, the call returns them, logs one compressor call and
  stores them; every call for the same algorithm and body under any other options, made
  before the TTL of the first instance has run out, returns these bytes and leaves the
  state as it is, the log of compressor calls included.
\<close>

theorem shared_cache_across_instances:
  assumes "\<not> fst (cache_has (cacheKey P algorithm buffer) t1 (cacheStore s))"
      and "compressors P (compression options1) algorithm buffer = Inr out"
  shows "\<exists>s1. getOrCompress P (compression options1) algorithm buffer t1 s = (Inr (Some out), s1)
           \<and> compressorCalls s1 = compressorCalls s @ [(algorithm, buffer)]
           \<and> (\<forall>t2. t2 < t1 + cacheTTL (compression options1) \<longrightarrow>
                 getOrCompress P (compression options2) algorithm buffer t2 s1
                   = (Inr (Some out), s1))"
proof -
  let ?key = "cacheKey P algorithm buffer"
  let ?cfg1 = "compression options1"
  define s1 where "s1 = s\<lparr>cacheStore := cache_set ?key out (cacheTTL ?cfg1) t1
                                          (snd (cache_has ?key t1 (cacheStore s))),
                          compressorCalls := compressorCalls s @ [(algorithm, buffer)]\<rparr>"
  have first: "getOrCompress P ?cfg1 algorithm buffer t1 s = (Inr (Some out), s1)"
    using assms by (simp add: getOrCompress_miss Let_def s1_def)
  have entry: "cacheStore s1 ?key
               = Some \<lparr>entry_value = out, createdAt = t1, entry_TTL = cacheTTL ?cfg1\<rparr>"
    by (simp add: s1_def cache_set_def)
  show ?thesis
  proof (intro exI [of _ s1] conjI allI impI)
    show "getOrCompress P ?cfg1 algorithm buffer t1 s = (Inr (Some out), s1)" by (rule first)
    show "compressorCalls s1 = compressorCalls s @ [(algorithm, buffer)]" by (simp add: s1_def)
    show "getOrCompress P (compression options2) algorithm buffer t2 s1 = (Inr (Some out), s1)"
      if "t2 < t1 + cacheTTL ?cfg1" for t2
      using getOrCompress_hit [OF entry, of t2 "compression options2"] that
      by (simp add: visible_def)
  qed
qed

theorem shared_cache_across_instances_witness:
  "fst (getOrCompress example_platform (compression (Some (buffered_options None))) Gzip hello 0
          empty_state)
     = Inr (Some (2 # 6 # hello))
   \<and> getOrCompress example_platform (compression (Some other_options)) Gzip hello 3600
       (snd (getOrCompress example_platform (compression (Some (buffered_options None))) Gzip
               hello 0 empty_state))
     = (Inr (Some (2 # 6 # hello)),
        snd (getOrCompress example_platform (compression (Some (buffered_options None))) Gzip
               hello 0 empty_state))
   \<and> compressorCalls
       (snd (getOrCompress example_platform (compression (Some (buffered_options None))) Gzip
               hello 0 empty_state))
     = [(Gzip, hello)]
   \<and> compressors example_platform (compression (Some other_options)) Gzip hello
     = Inr (2 # 9 # hello)
   \<and> cacheTTL (compression (Some other_options)) = 1"
proof -
  let ?cfg1 = "compression (Some (buffered_options None))"
  let ?first = "getOrCompress example_platform ?cfg1 Gzip hello 0 empty_state"
  have miss: "\<not> fst (cache_has (cacheKey example_platform Gzip hello) 0 (cacheStore empty_state))"
    by (simp add: cache_has_def empty_state_def)
  have "\<exists>s1. ?first = (Inr (Some (2 # 6 # hello)), s1)
           \<and> compressorCalls s1 = compressorCalls empty_state @ [(Gzip, hello)]
           \<and> (\<forall>t2. t2 < 0 + cacheTTL ?cfg1 \<longrightarrow>
                 getOrCompress example_platform (compression (Some other_options)) Gzip hello t2 s1
                   = (Inr (Some (2 # 6 # hello)), s1))"
    (is "\<exists>s1. ?Q s1")
    by (rule shared_cache_across_instances [OF miss compressors_example_gzip])
  then obtain s1 where h: "?Q s1" ..
  note first = h [THEN conjunct1]
  note calls = h [THEN conjunct2, THEN conjunct1]
  note again = h [THEN conjunct2, THEN conjunct2, rule_format, of 3600]
  have s1: "snd ?first = s1" by (simp add: first)
  have 1: "fst ?first = Inr (Some (2 # 6 # hello))" by (simp add: first)
  have 2: "getOrCompress example_platform (compression (Some other_options)) Gzip hello 3600
             (snd ?first) = (Inr (Some (2 # 6 # hello)), snd ?first)"
    unfolding s1 by (rule again) (simp add: compression_buffered)
  have 3: "compressorCalls (snd ?first) = [(Gzip, hello)]"
    unfolding s1 using calls by (simp add: empty_state_def)
  have own: "compressors example_platform (compression (Some other_options)) Gzip hello
             = Inr (2 # 9 # hello)"
    by (simp add: compression_def spread_def other_options_def)
       (simp add: example_platform_def level_byte_def)
  have ttl: "cacheTTL (compression (Some other_options)) = 1"
    by (simp add: compression_def nullish_def other_options_def)
  from 1 2 3 own ttl show ?thesis by simp
qed

end
